theory Spec2Isabelle
  imports Main "HOL-Library.Sublist"
begin

section \<open>Data model\<close>

text \<open>
  The two structs of the program. Go strings are byte sequences, so they are
  \<open>string\<close> (a list of 8-bit characters). \<open>ParserContext\<close> is declared first so that
  the plain field name \<open>Level\<close> is the one of \<open>SpringLogStruct\<close>; the filter level is
  written \<open>ParserContext.Level\<close>.
\<close>

record ParserContext =
  Filter :: string
  Level :: string
  Pretty :: bool

record SpringLogStruct =
  Time :: string
  Level :: string
  Pid :: string
  Thread :: string
  Class :: string
  Message :: string
  Raw :: string
  ParseStatus :: int

text \<open>The zero value of the struct (\<open>var logObjectBuffer SpringLogStruct\<close>).\<close>

definition zeroSpringLogStruct :: SpringLogStruct where
  "zeroSpringLogStruct =
     \<lparr>Time = [], Level = [], Pid = [], Thread = [], Class = [], Message = [], Raw = [],
      ParseStatus = 0\<rparr>"

section \<open>Library functions on strings\<close>

text \<open>
  UTF-8 encodings of the runes for which \<open>unicode.IsSpace\<close> holds: tab, line feed,
  vertical tab, form feed, carriage return, space, U+0085, U+00A0, U+1680,
  U+2000 to U+200A, U+2028, U+2029, U+202F, U+205F, U+3000. No encoding is a prefix
  or a suffix of another one, and none starts with a continuation byte, so looking
  for them byte by byte finds the runes the decoder of the library finds.
\<close>

definition unicodeSpaces :: "string list" where
  "unicodeSpaces =
     [[CHR 0x09], [CHR 0x0A], [CHR 0x0B], [CHR 0x0C], [CHR 0x0D], [CHR 0x20],
      [CHR 0xC2, CHR 0x85], [CHR 0xC2, CHR 0xA0],
      [CHR 0xE1, CHR 0x9A, CHR 0x80],
      [CHR 0xE2, CHR 0x80, CHR 0x80], [CHR 0xE2, CHR 0x80, CHR 0x81],
      [CHR 0xE2, CHR 0x80, CHR 0x82], [CHR 0xE2, CHR 0x80, CHR 0x83],
      [CHR 0xE2, CHR 0x80, CHR 0x84], [CHR 0xE2, CHR 0x80, CHR 0x85],
      [CHR 0xE2, CHR 0x80, CHR 0x86], [CHR 0xE2, CHR 0x80, CHR 0x87],
      [CHR 0xE2, CHR 0x80, CHR 0x88], [CHR 0xE2, CHR 0x80, CHR 0x89],
      [CHR 0xE2, CHR 0x80, CHR 0x8A],
      [CHR 0xE2, CHR 0x80, CHR 0xA8], [CHR 0xE2, CHR 0x80, CHR 0xA9],
      [CHR 0xE2, CHR 0x80, CHR 0xAF], [CHR 0xE2, CHR 0x81, CHR 0x9F],
      [CHR 0xE3, CHR 0x80, CHR 0x80]]"

text \<open>The number of bytes of the first of \<open>encs\<close> that \<open>s\<close> starts with, 0 if none.\<close>

definition widthOf :: "string list \<Rightarrow> string \<Rightarrow> nat" where
  "widthOf encs s = (case filter (\<lambda>p. prefix p s) encs of [] \<Rightarrow> 0 | p # _ \<Rightarrow> length p)"

text \<open>
  \<open>strings.Fields\<close>: the maximal runs of non-space runes. \<open>skip\<close> counts the bytes of
  a space rune still to be passed, \<open>cur\<close> is the field read so far.
\<close>

fun fieldsFrom :: "nat \<Rightarrow> string \<Rightarrow> string \<Rightarrow> string list" where
  "fieldsFrom skip cur [] = (if cur = [] then [] else [cur])"
| "fieldsFrom skip cur (c # cs) =
     (if 0 < skip then fieldsFrom (skip - 1) cur cs
      else (case widthOf unicodeSpaces (c # cs) of
              0 \<Rightarrow> fieldsFrom 0 (cur @ [c]) cs
            | Suc w \<Rightarrow> (if cur = [] then [] else [cur]) @ fieldsFrom w [] cs))"

definition strings_Fields :: "string \<Rightarrow> string list" where
  "strings_Fields s = fieldsFrom 0 [] s"

text \<open>\<open>strings.Join\<close>.\<close>

fun strings_Join :: "string list \<Rightarrow> string \<Rightarrow> string" where
  "strings_Join [] sep = []"
| "strings_Join [x] sep = x"
| "strings_Join (x # y # ys) sep = x @ sep @ strings_Join (y # ys) sep"

text \<open>\<open>strings.TrimSpace\<close>: leading space runes are dropped, then trailing ones.\<close>

fun trimLeftWith :: "string list \<Rightarrow> nat \<Rightarrow> string \<Rightarrow> string" where
  "trimLeftWith encs skip [] = []"
| "trimLeftWith encs skip (c # cs) =
     (if 0 < skip then trimLeftWith encs (skip - 1) cs
      else (case widthOf encs (c # cs) of
              0 \<Rightarrow> c # cs
            | Suc w \<Rightarrow> trimLeftWith encs w cs))"

definition strings_TrimSpace :: "string \<Rightarrow> string" where
  "strings_TrimSpace s =
     rev (trimLeftWith (map rev unicodeSpaces) 0 (rev (trimLeftWith unicodeSpaces 0 s)))"

text \<open>\<open>strings.HasPrefix\<close> is \<^const>\<open>prefix\<close>. \<open>strings.Contains\<close>: some suffix of
  \<open>s\<close> starts with \<open>substr\<close>.\<close>

fun strings_Contains :: "string \<Rightarrow> string \<Rightarrow> bool" where
  "strings_Contains [] substr = (substr = [])"
| "strings_Contains (c # cs) substr = (prefix substr (c # cs) \<or> strings_Contains cs substr)"

text \<open>\<open>strings.Replace(s, old, new, 1)\<close> for a one-byte \<open>old\<close>: the first occurrence
  is replaced.\<close>

fun replaceFirst :: "char \<Rightarrow> string \<Rightarrow> string \<Rightarrow> string" where
  "replaceFirst old new [] = []"
| "replaceFirst old new (c # cs) = (if c = old then new @ cs else c # replaceFirst old new cs)"

section \<open>Regular expressions\<close>

text \<open>
  The fragment of the syntax of package \<open>regexp\<close> that the two patterns of
  \<open>processLogLine\<close> use. A repetition ranges over one character class; it has a least
  and an optional greatest count and is greedy or lazy. Both patterns are anchored
  with \<open>^\<close> in every alternative, so a match can only begin at offset 0.
\<close>

datatype regex =
    Lit string
  | Rep "char \<Rightarrow> bool" nat "nat option" bool
  | Cat regex regex
  | Alt regex regex
  | Opt regex
  | Grp nat regex

text \<open>
  The remaining inputs after a repetition, in the order a backtracking search tries
  them: a greedy one takes more characters first, a lazy one stops first.
\<close>

fun rep :: "(char \<Rightarrow> bool) \<Rightarrow> nat \<Rightarrow> nat option \<Rightarrow> bool \<Rightarrow> string \<Rightarrow> string list" where
  "rep p lo hi greedy [] = (if lo = 0 then [[]] else [])"
| "rep p lo hi greedy (c # cs) =
     (let stop = (if lo = 0 then [c # cs] else []);
          more = (if p c \<and> hi \<noteq> Some 0
                  then rep p (lo - 1) (map_option (\<lambda>h. h - 1) hi) greedy cs else [])
      in if greedy then more @ stop else stop @ more)"

text \<open>
  All matches of a pattern at the start of \<open>s\<close>, each with the rest of the input and
  the texts of the groups, in the order a backtracking search finds them. The package
  returns the first one (leftmost-first semantics).
\<close>

fun rmatch :: "regex \<Rightarrow> string \<Rightarrow> string list \<Rightarrow> (string \<times> string list) list" where
  "rmatch (Lit t) s caps = (if prefix t s then [(drop (length t) s, caps)] else [])"
| "rmatch (Rep p lo hi greedy) s caps = map (\<lambda>s'. (s', caps)) (rep p lo hi greedy s)"
| "rmatch (Cat a b) s caps = concat (map (\<lambda>(s', caps'). rmatch b s' caps') (rmatch a s caps))"
| "rmatch (Alt a b) s caps = rmatch a s caps @ rmatch b s caps"
| "rmatch (Opt a) s caps = rmatch a s caps @ [(s, caps)]"
| "rmatch (Grp n a) s caps =
     map (\<lambda>(s', caps'). (s', caps'[n := take (length s - length s') s])) (rmatch a s caps)"

text \<open>\<open>MatchString\<close>, and \<open>FindStringSubmatch\<close> for a pattern with \<open>n\<close> groups: \<open>None\<close>
  is the nil slice, element 0 is the whole match, element \<open>i\<close> the text of group \<open>i\<close>.\<close>

definition MatchString :: "regex \<Rightarrow> string \<Rightarrow> bool" where
  "MatchString re s = (rmatch re s [] \<noteq> [])"

definition FindStringSubmatch :: "regex \<Rightarrow> nat \<Rightarrow> string \<Rightarrow> string list option" where
  "FindStringSubmatch re n s =
     (case rmatch re s (replicate (Suc n) []) of
        [] \<Rightarrow> None
      | (s', caps) # _ \<Rightarrow> Some (caps[0 := take (length s - length s') s]))"

fun cat :: "regex list \<Rightarrow> regex" where
  "cat [] = Lit []"
| "cat [r] = r"
| "cat (r # rs) = Cat r (cat rs)"

text \<open>The character classes: \<open>\<bsol>d\<close>, \<open>\<bsol>s\<close> (tab, line feed, form feed, carriage return,
  space), \<open>[A-Z]\<close>, and \<open>.\<close> (anything but a line feed).\<close>

definition digit :: "char \<Rightarrow> bool" where
  "digit c = (c \<in> set ''0123456789'')"

definition space :: "char \<Rightarrow> bool" where
  "space c = (c \<in> set [CHR 0x09, CHR 0x0A, CHR 0x0C, CHR 0x0D, CHR 0x20])"

definition upper :: "char \<Rightarrow> bool" where
  "upper c = (c \<in> set ''ABCDEFGHIJKLMNOPQRSTUVWXYZ'')"

definition anychar :: "char \<Rightarrow> bool" where
  "anychar c = (c \<noteq> CHR 0x0A)"

definition oneOf :: "string \<Rightarrow> char \<Rightarrow> bool" where
  "oneOf cs c = (c \<in> set cs)"

text \<open>
  \<^verbatim>\<open>^(?P<time>\d{4}-\d{1,2}-\d{1,2}T\d{1,2}:\d{1,2}:\d{1,2}[,.]\d{3}(?:Z|[+-]\d{2}:\d{2})?)\<close>
  \<^verbatim>\<open>\s+(?P<level>[A-Z]+)\s+(?P<pid>\d+)\s+---\s+\[(?P<thread>.*?)\]\s+(?P<class>.*?)\s*:\s*(?P<message>.*)\<close>
\<close>

definition firstLineRegexp :: regex where
  "firstLineRegexp =
     cat [Grp 1 (cat [Rep digit 4 (Some 4) True, Lit ''-'',
                      Rep digit 1 (Some 2) True, Lit ''-'',
                      Rep digit 1 (Some 2) True, Lit ''T'',
                      Rep digit 1 (Some 2) True, Lit '':'',
                      Rep digit 1 (Some 2) True, Lit '':'',
                      Rep digit 1 (Some 2) True,
                      Rep (oneOf '',.'') 1 (Some 1) True,
                      Rep digit 3 (Some 3) True,
                      Opt (Alt (Lit ''Z'')
                               (cat [Rep (oneOf ''+-'') 1 (Some 1) True,
                                     Rep digit 2 (Some 2) True, Lit '':'',
                                     Rep digit 2 (Some 2) True]))]),
          Rep space 1 None True,
          Grp 2 (Rep upper 1 None True),
          Rep space 1 None True,
          Grp 3 (Rep digit 1 None True),
          Rep space 1 None True, Lit ''---'', Rep space 1 None True,
          Lit ''['', Grp 4 (Rep anychar 0 None False), Lit '']'',
          Rep space 1 None True,
          Grp 5 (Rep anychar 0 None False),
          Rep space 0 None True, Lit '':'', Rep space 0 None True,
          Grp 6 (Rep anychar 0 None True)]"

text \<open>\<^verbatim>\<open>^\s+at\s+.*|^\s*Caused by:.*\<close>\<close>

definition continuedRegexp :: regex where
  "continuedRegexp =
     Alt (cat [Rep space 1 None True, Lit ''at'', Rep space 1 None True,
               Rep anychar 0 None True])
         (cat [Rep space 0 None True, Lit ''Caused by:'', Rep anychar 0 None True])"

section \<open>The line classifier\<close>

text \<open>
  What \<open>processLogLine\<close> returns as \<open>logLine\<close>: nil, a pointer to a fresh struct, or
  the pointer \<open>logObjectBuffer\<close> it was given.
\<close>

datatype logLine = Nil | New SpringLogStruct | Buffer

datatype error = Error string

text \<open>
  The result is \<open>(logLine, err, buffer)\<close>, the last component being the struct behind
  \<open>logObjectBuffer\<close> after the call. \<open>err\<close> is nil on every path.
\<close>

definition processLogLine ::
  "string \<Rightarrow> SpringLogStruct \<Rightarrow> logLine \<times> error option \<times> SpringLogStruct" where
  "processLogLine line logObjectBuffer =
     (case FindStringSubmatch firstLineRegexp 6 line of
        Some match \<Rightarrow>
          (let buffer = (if ParseStatus logObjectBuffer \<noteq> 0
                         then logObjectBuffer\<lparr>ParseStatus := 3\<rparr> else logObjectBuffer);
               springLogLine =
                 \<lparr>Time = strings_Join (strings_Fields (match ! 1)) '' '',
                  Level = strings_Join (strings_Fields (match ! 2)) '' '',
                  Pid = strings_Join (strings_Fields (match ! 3)) '' '',
                  Thread = strings_Join (strings_Fields (match ! 4)) '' '',
                  Class = strings_Join (strings_Fields (match ! 5)) '' '',
                  Message = strings_TrimSpace (match ! 6),
                  Raw = line,
                  ParseStatus = 1\<rparr>
           in (New springLogLine, None, buffer))
      | None \<Rightarrow>
          (if 0 < ParseStatus logObjectBuffer
              \<and> (Level logObjectBuffer = ''ERROR'' \<or> Level logObjectBuffer = ''WARN''
                   \<or> MatchString continuedRegexp line)
              \<and> (MatchString continuedRegexp line \<or> prefix [CHR 0x09] line
                   \<or> (0 < length line \<and> hd line = CHR '' ''))
           then (Buffer, None,
                 logObjectBuffer\<lparr>Raw := Raw logObjectBuffer @ [CHR 0x0A] @ line,
                                  Message := Message logObjectBuffer @ [CHR 0x0A] @ line,
                                  ParseStatus := 2\<rparr>)
           else (Nil, None, logObjectBuffer)))"

section \<open>The sink\<close>

text \<open>
  What the program writes: lines on standard output (plain or through package
  \<open>color\<close>) and records of the logger, each with its message and attributes.
\<close>

datatype attr = Str string | Err error

datatype event =
    Println string
  | Color_Red string
  | Color_Yellow string
  | Color_Green string
  | Slog_Error string "(string \<times> attr) list"

text \<open>
  The library calls whose code is not part of the program are parameters:
  \<open>json.Marshal\<close> on a record, \<open>json.Indent\<close> with prefix \<open>""\<close> and indent \<open>"\t"\<close>,
  \<open>time.Parse\<close> with layout \<open>time.RFC3339Nano\<close>, and the text that \<open>fmt.Sprintf\<close> makes
  of \<open>int(diff.Minutes())\<close> and \<open>int(diff.Seconds()) % 60\<close> for \<open>diff = t.Sub(p)\<close>
  (floating-point arithmetic), given \<open>p\<close> and \<open>t\<close>.
\<close>

record 'tm library =
  json_Marshal :: "SpringLogStruct \<Rightarrow> error + string"
  json_Indent :: "string \<Rightarrow> error + string"
  time_Parse :: "string \<Rightarrow> error + 'tm"
  minutesAndSeconds :: "'tm \<Rightarrow> 'tm \<Rightarrow> string"

definition parseTime :: "'tm library \<Rightarrow> string \<Rightarrow> error + 'tm" where
  "parseTime lib timestamp =
     (let normalizedTimestamp = replaceFirst (CHR '','') ''.'' timestamp
      in time_Parse lib normalizedTimestamp)"

definition checkFilter :: "ParserContext \<Rightarrow> SpringLogStruct \<Rightarrow> bool" where
  "checkFilter ctx logObject = (if strings_Contains (Raw logObject) (Filter ctx) then True else False)"

definition checkLevel :: "ParserContext \<Rightarrow> SpringLogStruct \<Rightarrow> bool" where
  "checkLevel ctx logObject = (if Level logObject = ParserContext.Level ctx then True else False)"

text \<open>The result is the returned error (\<open>None\<close> is nil) and what was written.\<close>

definition prettyPrintJson ::
  "'tm library \<Rightarrow> SpringLogStruct \<Rightarrow> ParserContext \<Rightarrow> string \<Rightarrow> error option \<times> event list" where
  "prettyPrintJson lib lineObj ctx previousTimestamp =
     (case json_Marshal lib lineObj of
        Inl err \<Rightarrow> (Some err, [])
      | Inr logObject \<Rightarrow>
          (case json_Indent lib logObject of
             Inl indentErr \<Rightarrow> (Some indentErr, [])
           | Inr indentedJson \<Rightarrow>
               (if Pretty ctx then
                  (let levelLine =
                         (if Level lineObj = ''ERROR'' then Color_Red (''LEVEL:   '' @ Level lineObj)
                          else if Level lineObj = ''WARN'' then Color_Yellow (''LEVEL:   '' @ Level lineObj)
                          else if Level lineObj = ''INFO'' then Color_Green (''LEVEL:   '' @ Level lineObj)
                          else Println (''LEVEL:   '' @ Level lineObj));
                       (logged, diffString) =
                         (if previousTimestamp \<noteq> [] then
                            (case (parseTime lib previousTimestamp, parseTime lib (Time lineObj)) of
                               (Inr p, Inr t) \<Rightarrow> ([], minutesAndSeconds lib p t)
                             | (p, t) \<Rightarrow>
                                 ((case p of
                                     Inl pErr \<Rightarrow>
                                       [Slog_Error ''Error parsing previous timestamp''
                                          [(''timestamp'', Str previousTimestamp), (''error'', Err pErr)]]
                                   | Inr _ \<Rightarrow> [])
                                  @ (case t of
                                       Inl tErr \<Rightarrow>
                                         [Slog_Error ''Error parsing current timestamp''
                                            [(''timestamp'', Str (Time lineObj)), (''error'', Err tErr)]]
                                     | Inr _ \<Rightarrow> []),
                                  ''0 minutes and 0 seconds''))
                          else ([], []))
                   in (None,
                       [levelLine] @ logged
                       @ [Println (''TIME:    '' @ Time lineObj),
                          Println (''DIFF:    '' @ diffString),
                          Println (''THREAD:  '' @ Thread lineObj),
                          Println (''CLASS:   '' @ Class lineObj),
                          Println (''MESSAGE: '' @ Message lineObj),
                          Println []]))
                else (None, [Println indentedJson]))))"

definition printResults ::
  "'tm library \<Rightarrow> ParserContext \<Rightarrow> SpringLogStruct \<Rightarrow> string \<Rightarrow> error option \<times> event list" where
  "printResults lib ctx logObject previousTimestamp =
     (let filterPassed = True;
          filterPassed = (if ParserContext.Level ctx \<noteq> [] then checkLevel ctx logObject
                          else filterPassed)
      in if ParserContext.Level ctx \<noteq> [] \<and> filterPassed = False then (None, [])
         else
           (let filterPassed = (if ParserContext.Level ctx \<noteq> [] \<and> Filter ctx \<noteq> []
                                then checkFilter ctx logObject else filterPassed);
                filterPassed = (if Filter ctx \<noteq> [] \<and> ParserContext.Level ctx = []
                                then checkFilter ctx logObject else filterPassed)
            in if filterPassed then prettyPrintJson lib logObject ctx previousTimestamp
               else (None, [])))"

section \<open>The driver\<close>

text \<open>
  The variables of \<open>readStdin\<close>, together with the arguments of every call of
  \<open>printResults\<close> made so far (\<open>sink\<close>) and everything written so far (\<open>emitted\<close>).
\<close>

record scan =
  logObjectBuffer :: SpringLogStruct
  previousLogObject :: "SpringLogStruct option"
  sink :: "(SpringLogStruct \<times> string) list"
  emitted :: "event list"

definition scan0 :: scan where
  "scan0 = \<lparr>logObjectBuffer = zeroSpringLogStruct, previousLogObject = None, sink = [],
            emitted = []\<rparr>"

definition previousTimestampOf :: "SpringLogStruct option \<Rightarrow> string" where
  "previousTimestampOf prev = (case prev of None \<Rightarrow> [] | Some p \<Rightarrow> Time p)"

text \<open>The body of the loop for a non-empty line; an error is an early return.\<close>

definition scanStep ::
  "'tm library \<Rightarrow> ParserContext \<Rightarrow> string \<Rightarrow> scan \<Rightarrow> error option \<times> scan" where
  "scanStep lib ctx line st =
     (let bufferBeforeProcessing = logObjectBuffer st;
          (lineObj, err, buffer) = processLogLine line (logObjectBuffer st);
          st = st\<lparr>logObjectBuffer := buffer\<rparr>
      in if err \<noteq> None then (err, st)
         else
           (let (err, st) =
                  (if ParseStatus (logObjectBuffer st) = 3 then
                     (let previousTimestamp = previousTimestampOf (previousLogObject st);
                          (err, written) =
                            printResults lib ctx bufferBeforeProcessing previousTimestamp;
                          st = st\<lparr>sink := sink st @ [(bufferBeforeProcessing, previousTimestamp)],
                                  emitted := emitted st @ written\<rparr>
                      in if err \<noteq> None then (err, st)
                         else (None, st\<lparr>previousLogObject := Some bufferBeforeProcessing\<rparr>))
                   else (None, st))
            in if err \<noteq> None then (err, st)
               else (None,
                     (case lineObj of
                        Nil \<Rightarrow> st
                      | New springLogLine \<Rightarrow> st\<lparr>logObjectBuffer := springLogLine\<rparr>
                      | Buffer \<Rightarrow> st))))"

text \<open>The loop over the lines the scanner returns; an empty line is skipped.\<close>

fun scanLines ::
  "'tm library \<Rightarrow> ParserContext \<Rightarrow> string list \<Rightarrow> scan \<Rightarrow> error option \<times> scan" where
  "scanLines lib ctx [] st = (None, st)"
| "scanLines lib ctx (line # rest) st =
     (if length line = 0 then scanLines lib ctx rest st
      else (case scanStep lib ctx line st of
              (Some err, st') \<Rightarrow> (Some err, st')
            | (None, st') \<Rightarrow> scanLines lib ctx rest st'))"

text \<open>
  Standard input is the list of lines that \<open>scanner.Text()\<close> returns while
  \<open>scanner.Scan()\<close> is true (no line holds a line feed), and the value of
  \<open>scanner.Err()\<close> once it is false: \<open>None\<close> at the end of the input, the error
  otherwise.
\<close>

definition readStdin ::
  "'tm library \<Rightarrow> ParserContext \<Rightarrow> string list \<times> error option \<Rightarrow> error option \<times> scan" where
  "readStdin lib ctx stdin =
     (case scanLines lib ctx (fst stdin) scan0 of
        (Some err, st) \<Rightarrow> (Some err, st)
      | (None, st) \<Rightarrow>
          (if ParseStatus (logObjectBuffer st) \<noteq> 0 then
             (let previousTimestamp = previousTimestampOf (previousLogObject st);
                  (err, written) =
                    printResults lib ctx (logObjectBuffer st) previousTimestamp;
                  st = st\<lparr>sink := sink st @ [(logObjectBuffer st, previousTimestamp)],
                          emitted := emitted st @ written\<rparr>
              in if err \<noteq> None then (err, st) else (snd stdin, st))
           else (snd stdin, st)))"

text \<open>
  \<open>main\<close>, from the parsed options on: the exit status of the process and what it
  wrote. \<open>setupErr\<close> is what \<open>setupAppDir\<close> returned; it is only logged.
\<close>

definition main ::
  "'tm library \<Rightarrow> error option \<Rightarrow> ParserContext \<Rightarrow> string list \<times> error option
     \<Rightarrow> nat \<times> event list" where
  "main lib setupErr options stdin =
     (let logged = (case setupErr of
                      None \<Rightarrow> []
                    | Some e \<Rightarrow> [Slog_Error ''Error encountered setting up application directory.''
                                   [(''Error'', Err e)]])
      in case readStdin lib options stdin of
           (None, st) \<Rightarrow> (0, logged @ emitted st)
         | (Some err, st) \<Rightarrow>
             (1, logged @ emitted st
                 @ [Slog_Error ''Encountered error: '' [(''ErrorMessage'', Err err)]]))"

section \<open>Notions used in the properties\<close>

text \<open>A line is a header line when the first pattern matches it.\<close>

definition isHeader :: "string \<Rightarrow> bool" where
  "isHeader line = (FindStringSubmatch firstLineRegexp 6 line \<noteq> None)"

text \<open>
  What the second pattern accepts, said directly: at least one white-space character,
  then \<open>at\<close>, then at least one white-space character; or any white space, then
  \<open>Caused by:\<close>.
\<close>

definition frameOrCause :: "string \<Rightarrow> bool" where
  "frameOrCause line =
     (let r = dropWhile space line
      in (takeWhile space line \<noteq> [] \<and> prefix ''at'' r \<and> takeWhile space (drop 2 r) \<noteq> [])
         \<or> prefix ''Caused by:'' r)"

text \<open>
  The stack-frame/cause pattern in the words of the specification: optional leading
  white space, then the token \<open>at\<close> and arbitrary remaining text; or optional leading
  white space, then \<open>Caused by:\<close>. With it, the continuation policy of the
  specification.
\<close>

definition spec_frameOrCause :: "string \<Rightarrow> bool" where
  "spec_frameOrCause line =
     (let r = dropWhile space line in prefix ''at'' r \<or> prefix ''Caused by:'' r)"

definition spec_continuation :: "string \<Rightarrow> SpringLogStruct \<Rightarrow> bool" where
  "spec_continuation line acc =
     (0 < ParseStatus acc
      \<and> (Level acc = ''ERROR'' \<or> Level acc = ''WARN'' \<or> spec_frameOrCause line)
      \<and> (spec_frameOrCause line \<or> prefix [CHR 0x09] line
           \<or> (line \<noteq> [] \<and> hd line = CHR '' '')))"

text \<open>The first line of the raw text of a record.\<close>

definition firstLine :: "SpringLogStruct \<Rightarrow> string" where
  "firstLine r = takeWhile (\<lambda>c. c \<noteq> CHR 0x0A) (Raw r)"

text \<open>The records handed to the sink so far, followed by the one in progress, if any.\<close>

definition started :: "scan \<Rightarrow> SpringLogStruct list" where
  "started st =
     map fst (sink st)
     @ (if ParseStatus (logObjectBuffer st) \<noteq> 0 then [logObjectBuffer st] else [])"

text \<open>The state of the driver with what it wrote left out.\<close>

definition core :: "scan \<Rightarrow> SpringLogStruct \<times> SpringLogStruct option \<times> (SpringLogStruct \<times> string) list" where
  "core st = (logObjectBuffer st, previousLogObject st, sink st)"

text \<open>What the sink writes for a list of calls of \<open>printResults\<close>, in their order.\<close>

definition sinkOutput ::
  "'tm library \<Rightarrow> ParserContext \<Rightarrow> (SpringLogStruct \<times> string) list \<Rightarrow> event list" where
  "sinkOutput lib ctx calls = concat (map (\<lambda>(r, p). snd (printResults lib ctx r p)) calls)"

subsection \<open>Sample data\<close>

definition infoHeader :: string where
  "infoHeader = ''2024-01-01T10:00:00.000Z INFO 123 --- [main] com.app.Foo : started''"

definition errorHeader :: string where
  "errorHeader = ''2024-01-01T10:00:05,250+02:00 ERROR 123 --- [worker-1] com.app.Bar : request timeout''"

definition infoRecord :: SpringLogStruct where
  "infoRecord =
     \<lparr>Time = ''2024-01-01T10:00:00.000Z'', Level = ''INFO'', Pid = ''123'', Thread = ''main'',
      Class = ''com.app.Foo'', Message = ''started'', Raw = infoHeader, ParseStatus = 1\<rparr>"

definition errorRecord :: SpringLogStruct where
  "errorRecord =
     \<lparr>Time = ''2024-01-01T10:00:05,250+02:00'', Level = ''ERROR'', Pid = ''123'',
      Thread = ''worker-1'', Class = ''com.app.Bar'', Message = ''request timeout'',
      Raw = errorHeader, ParseStatus = 1\<rparr>"

definition frameLine :: string where
  "frameLine = CHR 0x09 # ''at com.app.Bar.run(Bar.java:10)''"

definition tabLine :: string where
  "tabLine = CHR 0x09 # ''retrying in 5 seconds''"

text \<open>A library whose JSON functions succeed and whose \<open>time.Parse\<close> always fails.\<close>

definition failingClock :: "nat library" where
  "failingClock =
     \<lparr>json_Marshal = (\<lambda>r. Inr (Raw r)), json_Indent = (\<lambda>j. Inr j),
      time_Parse = (\<lambda>s. Inl (Error ''cannot parse'')), minutesAndSeconds = (\<lambda>p t. [])\<rparr>"

definition plain :: ParserContext where
  "plain = \<lparr>Filter = [], Level = [], Pretty = False\<rparr>"

definition pretty :: ParserContext where
  "pretty = \<lparr>Filter = [], Level = [], Pretty = True\<rparr>"

definition errorTimeout :: ParserContext where
  "errorTimeout = \<lparr>Filter = ''timeout'', Level = ''ERROR'', Pretty = False\<rparr>"

text \<open>
  A header line whose timestamp has no zone: the first pattern accepts it (the zone is
  optional there), the layout \<open>time.RFC3339Nano\<close> does not.
\<close>

definition zonelessHeader :: string where
  "zonelessHeader = ''2024-01-01T09:59:58.000 INFO 123 --- [main] com.app.Foo : booting''"

definition zonelessRecord :: SpringLogStruct where
  "zonelessRecord =
     \<lparr>Time = ''2024-01-01T09:59:58.000'', Level = ''INFO'', Pid = ''123'', Thread = ''main'',
      Class = ''com.app.Foo'', Message = ''booting'', Raw = zonelessHeader, ParseStatus = 1\<rparr>"

text \<open>
  The shape of a timestamp with a zone: date, \<open>T\<close>, time of day, an optional fraction
  of a second, then \<open>Z\<close> or an offset. A library whose \<open>time.Parse\<close> accepts exactly
  the texts of this shape, read to their end. Its times carry no value and the text
  of a difference is empty; it serves for timestamps that fail to parse.
\<close>

definition rfc3339 :: regex where
  "rfc3339 =
     cat [Rep digit 4 (Some 4) True, Lit ''-'', Rep digit 2 (Some 2) True, Lit ''-'',
          Rep digit 2 (Some 2) True, Lit ''T'',
          Rep digit 2 (Some 2) True, Lit '':'', Rep digit 2 (Some 2) True, Lit '':'',
          Rep digit 2 (Some 2) True,
          Opt (Cat (Lit ''.'') (Rep digit 1 (Some 9) True)),
          Alt (Lit ''Z'')
              (cat [Rep (oneOf ''+-'') 1 (Some 1) True, Rep digit 2 (Some 2) True, Lit '':'',
                    Rep digit 2 (Some 2) True])]"

definition zonedClock :: "nat library" where
  "zonedClock =
     \<lparr>json_Marshal = (\<lambda>r. Inr (Raw r)), json_Indent = (\<lambda>j. Inr j),
      time_Parse = (\<lambda>s. if [] \<in> set (map fst (rmatch rfc3339 s []))
                          then Inr 0 else Inl (Error ''cannot parse'')),
      minutesAndSeconds = (\<lambda>p t. [])\<rparr>"

section \<open>Facts about the two patterns\<close>

lemma rep_nonempty: "(rep p lo None g s \<noteq> []) = (lo \<le> length (takeWhile p s))"
proof (induction s arbitrary: lo)
  case Nil
  then show ?case by simp
next
  case (Cons c cs)
  have "(lo - 1 \<le> length (takeWhile p cs)) = (lo \<le> Suc (length (takeWhile p cs)))"
    by arith
  then show ?case using Cons.IH[of "lo - 1"] by (auto simp: Let_def)
qed

lemma rmatch_Rep_any: "rmatch (Rep q 0 None g) r caps \<noteq> []"
  using rep_nonempty[of q 0 g r] by simp

lemma rmatch_Cat_Rep_any:
  "(rmatch (Cat (Rep p lo None g) (Rep q 0 None g')) s caps \<noteq> []) = (lo \<le> length (takeWhile p s))"
proof -
  have "(rmatch (Cat (Rep p lo None g) (Rep q 0 None g')) s caps \<noteq> [])
          = (\<exists>r\<in>set (rep p lo None g s). rmatch (Rep q 0 None g') r caps \<noteq> [])"
    by (auto simp: concat_eq_Nil_conv)
  also have "\<dots> = (rep p lo None g s \<noteq> [])"
    using rmatch_Rep_any by (cases "rep p lo None g s") auto
  finally show ?thesis by (simp add: rep_nonempty)
qed

lemma rep_pos: "0 < lo \<Longrightarrow> rep p lo hi g s \<noteq> [] \<Longrightarrow> s \<noteq> [] \<and> p (hd s)"
  by (cases s) (auto simp: Let_def split: if_splits)

lemma rep_ex:
  assumes "\<And>r. Q r \<Longrightarrow> r = [] \<or> \<not> p (hd r)"
  shows "(\<exists>r\<in>set (rep p lo None g s). Q r) = (lo \<le> length (takeWhile p s) \<and> Q (dropWhile p s))"
  using assms
proof (induction s arbitrary: lo)
  case Nil
  then show ?case by auto
next
  case (Cons c cs)
  have nq: "p c \<Longrightarrow> \<not> Q (c # cs)" using Cons.prems by fastforce
  show ?case
  proof (cases "p c")
    case True
    then show ?thesis using Cons.IH[OF Cons.prems, of "lo - 1"] nq
      by (auto simp: Let_def)
  next
    case False
    then show ?thesis by (auto simp: Let_def)
  qed
qed

lemma rmatch_Cat_Rep:
  "(rmatch (Cat (Rep p lo hi g) b) s caps \<noteq> []) = (\<exists>r\<in>set (rep p lo hi g s). rmatch b r caps \<noteq> [])"
  by (auto simp: concat_eq_Nil_conv)

lemma rmatch_Cat_Lit:
  "(rmatch (Cat (Lit t) b) s caps \<noteq> []) = (prefix t s \<and> rmatch b (drop (length t) s) caps \<noteq> [])"
  by auto

lemma MatchString_continuedRegexp: "MatchString continuedRegexp line = frameOrCause line"
proof -
  have a: "(rmatch (cat [Rep space 1 None True, Lit ''at'', Rep space 1 None True,
               Rep anychar 0 None True]) line [] \<noteq> [])
        = (takeWhile space line \<noteq> [] \<and> prefix ''at'' (dropWhile space line)
            \<and> takeWhile space (drop 2 (dropWhile space line)) \<noteq> [])"
  proof -
    let ?Q = "\<lambda>r. rmatch (Cat (Lit ''at'') (Cat (Rep space 1 None True) (Rep anychar 0 None True))) r [] \<noteq> []"
    have q: "\<And>r. ?Q r \<Longrightarrow> r = [] \<or> \<not> space (hd r)"
      by (auto simp: space_def prefix_def split: if_splits)
    have "(\<exists>r\<in>set (rep space 1 None True line). ?Q r)
            = (1 \<le> length (takeWhile space line) \<and> ?Q (dropWhile space line))"
      by (rule rep_ex) (use q in blast)
    moreover have "\<And>r. ?Q r = (prefix ''at'' r \<and> takeWhile space (drop 2 r) \<noteq> [])"
      unfolding rmatch_Cat_Lit rmatch_Cat_Rep_any
      by (auto simp: Suc_le_eq numeral_2_eq_2)
    ultimately show ?thesis
      unfolding cat.simps rmatch_Cat_Rep by (simp add: Suc_le_eq)
  qed
  have b: "(rmatch (cat [Rep space 0 None True, Lit ''Caused by:'', Rep anychar 0 None True]) line [] \<noteq> [])
        = prefix ''Caused by:'' (dropWhile space line)"
  proof -
    let ?Q = "\<lambda>r. rmatch (Cat (Lit ''Caused by:'') (Rep anychar 0 None True)) r [] \<noteq> []"
    have q: "\<And>r. ?Q r \<Longrightarrow> r = [] \<or> \<not> space (hd r)"
      by (auto simp: space_def prefix_def split: if_splits)
    have "(\<exists>r\<in>set (rep space 0 None True line). ?Q r)
            = (0 \<le> length (takeWhile space line) \<and> ?Q (dropWhile space line))"
      by (rule rep_ex) (use q in blast)
    moreover have "\<And>r. ?Q r = prefix ''Caused by:'' r"
      unfolding rmatch_Cat_Lit using rmatch_Rep_any by auto
    ultimately show ?thesis
      unfolding cat.simps rmatch_Cat_Rep by simp
  qed
  have "(rmatch continuedRegexp line [] \<noteq> [])
          = (rmatch (cat [Rep space 1 None True, Lit ''at'', Rep space 1 None True,
               Rep anychar 0 None True]) line [] \<noteq> []
             \<or> rmatch (cat [Rep space 0 None True, Lit ''Caused by:'', Rep anychar 0 None True]) line [] \<noteq> [])"
    unfolding continuedRegexp_def by (simp del: cat.simps)
  then show ?thesis
    unfolding MatchString_def frameOrCause_def Let_def a b .
qed

lemma isHeader_digit: "isHeader line \<Longrightarrow> line \<noteq> [] \<and> digit (hd line)"
proof -
  assume "isHeader line"
  then have "rmatch firstLineRegexp line (replicate 7 []) \<noteq> []"
    by (auto simp: isHeader_def FindStringSubmatch_def numeral_eq_Suc split: list.splits)
  then have "rep digit 4 (Some 4) True line \<noteq> []"
    unfolding firstLineRegexp_def cat.simps
    by (auto simp: concat_eq_Nil_conv)
  then show ?thesis using rep_pos[of 4 digit "Some 4" True line] by simp
qed

section \<open>The classifier\<close>

lemma digit_not_shape:
  assumes "line \<noteq> []" and "digit (hd line)"
  shows "\<not> frameOrCause line" and "\<not> prefix [CHR 0x09] line" and "hd line \<noteq> CHR '' ''"
  using assms
  by (cases line; auto simp: frameOrCause_def digit_def space_def)+

lemma processLogLine_header:
  assumes "isHeader line"
  shows "\<exists>r. processLogLine line acc
               = (New r, None, if ParseStatus acc \<noteq> 0 then acc\<lparr>ParseStatus := 3\<rparr> else acc)
             \<and> Raw r = line \<and> ParseStatus r = 1"
  using assms by (auto simp: isHeader_def processLogLine_def Let_def)

lemma processLogLine_other:
  assumes "\<not> isHeader line"
  shows "processLogLine line acc =
     (if 0 < ParseStatus acc
         \<and> (Level acc = ''ERROR'' \<or> Level acc = ''WARN'' \<or> frameOrCause line)
         \<and> (frameOrCause line \<or> prefix [CHR 0x09] line \<or> (line \<noteq> [] \<and> hd line = CHR '' ''))
      then (Buffer, None,
            acc\<lparr>Raw := Raw acc @ [CHR 0x0A] @ line, Message := Message acc @ [CHR 0x0A] @ line,
                ParseStatus := 2\<rparr>)
      else (Nil, None, acc))"
  using assms
  by (simp add: isHeader_def processLogLine_def MatchString_continuedRegexp)

lemma sample_fields:
  "ParseStatus zeroSpringLogStruct = 0"
  "ParseStatus infoRecord = 1" "Level infoRecord = ''INFO''" "Raw infoRecord = infoHeader"
  "Time infoRecord = ''2024-01-01T10:00:00.000Z''" "Message infoRecord = ''started''"
  "ParseStatus errorRecord = 1" "Level errorRecord = ''ERROR''" "Raw errorRecord = errorHeader"
  "Time errorRecord = ''2024-01-01T10:00:05,250+02:00''" "Message errorRecord = ''request timeout''"
  by (simp_all add: zeroSpringLogStruct_def infoRecord_def errorRecord_def)

lemma find_infoHeader:
  "FindStringSubmatch firstLineRegexp 6 infoHeader
     = Some [infoHeader, ''2024-01-01T10:00:00.000Z'', ''INFO'', ''123'', ''main'',
             ''com.app.Foo'', ''started'']"
  by code_simp

lemma find_errorHeader:
  "FindStringSubmatch firstLineRegexp 6 errorHeader
     = Some [errorHeader, ''2024-01-01T10:00:05,250+02:00'', ''ERROR'', ''123'', ''worker-1'',
             ''com.app.Bar'', ''request timeout'']"
  by code_simp

lemma classify_infoHeader:
  "processLogLine infoHeader acc
     = (New infoRecord, None, if ParseStatus acc \<noteq> 0 then acc\<lparr>ParseStatus := 3\<rparr> else acc)"
  unfolding processLogLine_def find_infoHeader
  by (simp add: infoRecord_def strings_Fields_def strings_TrimSpace_def widthOf_def
      unicodeSpaces_def)

lemma classify_errorHeader:
  "processLogLine errorHeader acc
     = (New errorRecord, None, if ParseStatus acc \<noteq> 0 then acc\<lparr>ParseStatus := 3\<rparr> else acc)"
  unfolding processLogLine_def find_errorHeader
  by (simp add: errorRecord_def strings_Fields_def strings_TrimSpace_def widthOf_def
      unicodeSpaces_def)

lemma sample_lines:
  "isHeader infoHeader" "isHeader errorHeader" "\<not> isHeader frameLine" "\<not> isHeader tabLine"
  "frameOrCause frameLine" "\<not> frameOrCause tabLine"
  "infoHeader \<noteq> []" "errorHeader \<noteq> []" "frameLine \<noteq> []" "tabLine \<noteq> []"
  "prefix [CHR 0x09] tabLine" "prefix [CHR 0x09] frameLine"
proof -
  show "isHeader infoHeader" by (simp add: isHeader_def find_infoHeader)
  show "isHeader errorHeader" by (simp add: isHeader_def find_errorHeader)
  show "\<not> isHeader frameLine" using isHeader_digit[of frameLine]
    by (auto simp: frameLine_def digit_def)
  show "\<not> isHeader tabLine" using isHeader_digit[of tabLine]
    by (auto simp: tabLine_def digit_def)
  show "frameOrCause frameLine" by (simp add: frameOrCause_def space_def frameLine_def)
  show "\<not> frameOrCause tabLine" by (simp add: frameOrCause_def space_def tabLine_def)
qed (simp_all add: infoHeader_def errorHeader_def frameLine_def tabLine_def)

text \<open>
  C1, as the code has it. A line is a continuation (the classifier returns the
  accumulator, extended) exactly when the accumulator is in progress, and its level is
  ERROR or WARN or the line matches the stack-frame/cause pattern, and the line
  matches that pattern or begins with a tab or with a space; where the pattern asks
  for at least one white-space character before \<open>at\<close> and at least one after it
  (\<^const>\<open>frameOrCause\<close>, which is what \<^const>\<open>continuedRegexp\<close> matches). A line that is neither a continuation nor a header line is
  ignored, and the accumulator is left as it was.
\<close>

theorem processLogLine_continuation:
  "(fst (processLogLine line acc) = Buffer)
     = (0 < ParseStatus acc
        \<and> (Level acc = ''ERROR'' \<or> Level acc = ''WARN'' \<or> frameOrCause line)
        \<and> (frameOrCause line \<or> prefix [CHR 0x09] line \<or> (line \<noteq> [] \<and> hd line = CHR '' '')))
   \<and> (fst (processLogLine line acc) \<noteq> Buffer \<and> \<not> isHeader line
        \<longrightarrow> processLogLine line acc = (Nil, None, acc))
   \<and> MatchString continuedRegexp line = frameOrCause line"
proof (cases "isHeader line")
  case True
  obtain r where "processLogLine line acc
      = (New r, None, if ParseStatus acc \<noteq> 0 then acc\<lparr>ParseStatus := 3\<rparr> else acc)"
    using processLogLine_header[OF True] by blast
  moreover have "line \<noteq> []" "digit (hd line)" using isHeader_digit[OF True] by simp_all
  ultimately show ?thesis
    using True digit_not_shape[of line] MatchString_continuedRegexp[of line] by auto
next
  case False
  show ?thesis
    unfolding processLogLine_other[OF False]
    using False MatchString_continuedRegexp[of line] by simp
qed

theorem processLogLine_continuation_witness:
  "fst (processLogLine tabLine infoRecord) \<noteq> Buffer \<and> \<not> isHeader tabLine
   \<and> processLogLine tabLine infoRecord = (Nil, None, infoRecord)"
proof -
  show ?thesis
    using processLogLine_continuation[of tabLine infoRecord] sample_lines sample_fields
    by simp
qed

text \<open>
  C1 as stated fails: the specification lets the white space before \<open>at\<close> be absent
  (\<^const>\<open>spec_continuation\<close>), so with an ERROR record in progress the line
  \<open>at work\<close> would be a continuation; the classifier ignores it.
\<close>

theorem spec_continuation_counterexample:
  "spec_continuation ''at work'' errorRecord \<and> \<not> isHeader ''at work''
   \<and> processLogLine ''at work'' errorRecord = (Nil, None, errorRecord)"
proof -
  have h: "\<not> isHeader ''at work''" using isHeader_digit[of "''at work''"]
    by (auto simp: digit_def)
  have f: "\<not> frameOrCause ''at work''" by (simp add: frameOrCause_def space_def)
  have s: "spec_continuation ''at work'' errorRecord"
    by (simp add: spec_continuation_def spec_frameOrCause_def space_def sample_fields)
  show ?thesis using h f s by (simp add: processLogLine_other)
qed

text \<open>
  C2, as the code has it. While the level of the accumulator is neither ERROR nor
  WARN, a line is a continuation exactly when the accumulator is in progress and the
  line matches the stack-frame/cause pattern; any other line that is not a header line
  is ignored. Scenario C with a tab-indented line that is no stack frame: the INFO
  record is handed over alone, with its one-line message.
\<close>

theorem processLogLine_low_severity:
  assumes "Level acc \<noteq> ''ERROR''" and "Level acc \<noteq> ''WARN''"
  shows "(fst (processLogLine line acc) = Buffer) = (0 < ParseStatus acc \<and> frameOrCause line)
         \<and> (\<not> frameOrCause line \<and> \<not> isHeader line
              \<longrightarrow> processLogLine line acc = (Nil, None, acc))
         \<and> map fst (sink (snd (readStdin lib ctx ([infoHeader, tabLine], None)))) = [infoRecord]
         \<and> Message infoRecord = ''started''"
proof -
  have a: "(fst (processLogLine line acc) = Buffer) = (0 < ParseStatus acc \<and> frameOrCause line)"
  proof (cases "isHeader line")
    case True
    obtain r where "processLogLine line acc
        = (New r, None, if ParseStatus acc \<noteq> 0 then acc\<lparr>ParseStatus := 3\<rparr> else acc)"
      using processLogLine_header[OF True] by blast
    moreover have "line \<noteq> []" "digit (hd line)" using isHeader_digit[OF True] by simp_all
    ultimately show ?thesis using digit_not_shape[of line] by auto
  next
    case False
    show ?thesis unfolding processLogLine_other[OF False] using assms by auto
  qed
  have b: "\<not> frameOrCause line \<and> \<not> isHeader line \<longrightarrow> processLogLine line acc = (Nil, None, acc)"
    using assms by (auto simp: processLogLine_other)
  have p2: "processLogLine tabLine infoRecord = (Nil, None, infoRecord)"
    by (simp add: processLogLine_other sample_lines sample_fields)
  have c: "map fst (sink (snd (readStdin lib ctx ([infoHeader, tabLine], None)))) = [infoRecord]"
  proof -
    have s1: "scanStep lib ctx infoHeader scan0 = (None, scan0\<lparr>logObjectBuffer := infoRecord\<rparr>)"
      by (simp add: scanStep_def scan0_def classify_infoHeader Let_def sample_fields)
    have s2: "scanStep lib ctx tabLine (scan0\<lparr>logObjectBuffer := infoRecord\<rparr>)
                = (None, scan0\<lparr>logObjectBuffer := infoRecord\<rparr>)"
      by (simp add: scanStep_def p2 Let_def sample_fields)
    have "scanLines lib ctx [infoHeader, tabLine] scan0 = (None, scan0\<lparr>logObjectBuffer := infoRecord\<rparr>)"
      by (simp add: sample_lines s1 s2)
    then show ?thesis
      by (simp add: readStdin_def scan0_def sample_fields Let_def split: prod.splits)
  qed
  have d: "Message infoRecord = ''started''" by (simp add: infoRecord_def)
  show ?thesis using a b c d by blast
qed

theorem processLogLine_low_severity_witness:
  "Level infoRecord \<noteq> ''ERROR'' \<and> Level infoRecord \<noteq> ''WARN''
   \<and> fst (processLogLine ''Caused by: java.io.IOException'' infoRecord) = Buffer
   \<and> \<not> frameOrCause tabLine \<and> \<not> isHeader tabLine
   \<and> processLogLine tabLine infoRecord = (Nil, None, infoRecord)"
proof -
  have l: "Level infoRecord \<noteq> ''ERROR''" "Level infoRecord \<noteq> ''WARN''"
    by (simp_all add: sample_fields)
  have c: "frameOrCause ''Caused by: java.io.IOException''"
    by (simp add: frameOrCause_def space_def)
  show ?thesis
    using processLogLine_low_severity[OF l, where line = "''Caused by: java.io.IOException''"
        and lib = failingClock and ctx = plain]
      processLogLine_low_severity[OF l, where line = tabLine and lib = failingClock and ctx = plain]
      l c sample_lines sample_fields
    by simp
qed

text \<open>
  C2 as stated fails: an INFO record does accept a line that matches the
  stack-frame/cause pattern, here a tab-indented stack frame, and is handed over with
  a two-line message.
\<close>

theorem low_severity_counterexample:
  "Level infoRecord \<noteq> ''ERROR'' \<and> Level infoRecord \<noteq> ''WARN''
   \<and> fst (processLogLine frameLine infoRecord) = Buffer
   \<and> map (Message \<circ> fst) (sink (snd (readStdin failingClock plain ([infoHeader, frameLine], None))))
       = [''started'' @ [CHR 0x0A] @ frameLine]"
proof -
  let ?r = "infoRecord\<lparr>Raw := Raw infoRecord @ [CHR 0x0A] @ frameLine,
              Message := Message infoRecord @ [CHR 0x0A] @ frameLine, ParseStatus := 2\<rparr>"
  have p2: "processLogLine frameLine infoRecord = (Buffer, None, ?r)"
    by (simp add: processLogLine_other sample_lines sample_fields)
  have s1: "scanStep failingClock plain infoHeader scan0
              = (None, scan0\<lparr>logObjectBuffer := infoRecord\<rparr>)"
    by (simp add: scanStep_def scan0_def classify_infoHeader Let_def sample_fields)
  have s2: "scanStep failingClock plain frameLine (scan0\<lparr>logObjectBuffer := infoRecord\<rparr>)
              = (None, scan0\<lparr>logObjectBuffer := ?r\<rparr>)"
    by (simp add: scanStep_def p2 Let_def sample_fields)
  have "scanLines failingClock plain [infoHeader, frameLine] scan0
          = (None, scan0\<lparr>logObjectBuffer := ?r\<rparr>)"
    by (simp add: sample_lines s1 s2)
  then have "map (Message \<circ> fst)
               (sink (snd (readStdin failingClock plain ([infoHeader, frameLine], None))))
             = [''started'' @ [CHR 0x0A] @ frameLine]"
    by (simp add: readStdin_def scan0_def sample_fields Let_def split: prod.splits)
  then show ?thesis using p2 by (simp add: sample_fields)
qed

text \<open>
  C10. When the classifier returns the accumulator (a continuation), the fields
  Time, Level, Pid, Thread and Class are as before, Message and Raw are each extended
  by a line feed and the line, and ParseStatus is 2.
\<close>

theorem continuation_frame:
  assumes "processLogLine line acc = (Buffer, err, acc')"
  shows "Time acc' = Time acc \<and> Level acc' = Level acc \<and> Pid acc' = Pid acc
         \<and> Thread acc' = Thread acc \<and> Class acc' = Class acc
         \<and> Message acc' = Message acc @ [CHR 0x0A] @ line
         \<and> Raw acc' = Raw acc @ [CHR 0x0A] @ line
         \<and> ParseStatus acc' = 2 \<and> err = None"
  using assms
  by (auto simp: processLogLine_def Let_def split: option.splits if_splits)

theorem continuation_frame_witness:
  "processLogLine tabLine errorRecord
     = (Buffer, None,
        errorRecord\<lparr>Raw := errorHeader @ [CHR 0x0A] @ tabLine,
                      Message := ''request timeout'' @ [CHR 0x0A] @ tabLine, ParseStatus := 2\<rparr>)
   \<and> Level (errorRecord\<lparr>Raw := errorHeader @ [CHR 0x0A] @ tabLine,
                      Message := ''request timeout'' @ [CHR 0x0A] @ tabLine, ParseStatus := 2\<rparr>)
       = Level errorRecord"
proof -
  have p: "processLogLine tabLine errorRecord
     = (Buffer, None,
        errorRecord\<lparr>Raw := errorHeader @ [CHR 0x0A] @ tabLine,
                      Message := ''request timeout'' @ [CHR 0x0A] @ tabLine, ParseStatus := 2\<rparr>)"
    by (simp add: processLogLine_other sample_lines sample_fields)
  show ?thesis using continuation_frame[OF p] p by simp
qed

section \<open>The sink and the driver\<close>

lemma prettyPrintJson_error:
  "fst (prettyPrintJson lib r ctx p)
     = (case json_Marshal lib r of
          Inl e \<Rightarrow> Some e
        | Inr j \<Rightarrow> (case json_Indent lib j of Inl e \<Rightarrow> Some e | Inr t \<Rightarrow> None))"
  by (simp add: prettyPrintJson_def Let_def split: sum.splits prod.splits)

lemma printResults_error:
  "fst (printResults lib ctx r p) = None \<or> fst (printResults lib ctx r p) = fst (prettyPrintJson lib r ctx p)"
  by (simp add: printResults_def Let_def)

lemma printResults_ok:
  assumes "\<forall>r. \<exists>j. json_Marshal lib r = Inr j" and "\<forall>j. \<exists>t. json_Indent lib j = Inr t"
  shows "fst (printResults lib ctx r p) = None"
proof -
  obtain j where j: "json_Marshal lib r = Inr j" using assms(1) by blast
  obtain t where t: "json_Indent lib j = Inr t" using assms(2) by blast
  have "fst (prettyPrintJson lib r ctx p) = None"
    by (simp add: prettyPrintJson_error j t)
  then show ?thesis using printResults_error[of lib ctx r p] by auto
qed

lemma scanStep_header:
  assumes "isHeader line"
  shows "\<exists>r. Raw r = line \<and> ParseStatus r = 1 \<and>
     scanStep lib ctx line st =
      (if ParseStatus (logObjectBuffer st) = 0 then (None, st\<lparr>logObjectBuffer := r\<rparr>)
       else (let ts = previousTimestampOf (previousLogObject st);
                 res = printResults lib ctx (logObjectBuffer st) ts;
                 st1 = st\<lparr>logObjectBuffer := (logObjectBuffer st)\<lparr>ParseStatus := 3\<rparr>,
                         sink := sink st @ [(logObjectBuffer st, ts)],
                         emitted := emitted st @ snd res\<rparr>
             in if fst res \<noteq> None then (fst res, st1)
                else (None, st1\<lparr>previousLogObject := Some (logObjectBuffer st),
                                logObjectBuffer := r\<rparr>)))"
proof -
  obtain r where r: "processLogLine line (logObjectBuffer st)
       = (New r, None, if ParseStatus (logObjectBuffer st) \<noteq> 0
                       then (logObjectBuffer st)\<lparr>ParseStatus := 3\<rparr> else logObjectBuffer st)"
      "Raw r = line" "ParseStatus r = 1"
    using processLogLine_header[OF assms, of "logObjectBuffer st"] by blast
  show ?thesis
    by (rule exI[of _ r]) (simp add: r scanStep_def Let_def split_beta)
qed

lemma scanStep_other:
  assumes "\<not> isHeader line" and "ParseStatus (logObjectBuffer st) \<noteq> 3"
  shows "scanStep lib ctx line st
           = (None, st\<lparr>logObjectBuffer := snd (snd (processLogLine line (logObjectBuffer st)))\<rparr>)"
  using assms by (simp add: scanStep_def processLogLine_other Let_def)

lemma scanLines_append:
  "scanLines lib ctx (xs @ ys) st =
     (case scanLines lib ctx xs st of
        (Some err, st') \<Rightarrow> (Some err, st')
      | (None, st') \<Rightarrow> scanLines lib ctx ys st')"
  by (induction xs arbitrary: st) (auto split: prod.splits option.splits)

lemma firstLine_new: "CHR 0x0A \<notin> set (Raw r) \<Longrightarrow> firstLine r = Raw r"
  by (auto simp: firstLine_def takeWhile_eq_all_conv)

lemma takeWhile_stop: "\<not> P c \<Longrightarrow> takeWhile P (xs @ c # ys) = takeWhile P xs"
  by (induction xs) auto

lemma firstLine_extended:
  "firstLine (r\<lparr>Raw := Raw r @ CHR 0x0A # line, Message := m, ParseStatus := n\<rparr>) = firstLine r"
  by (simp add: firstLine_def takeWhile_stop)

lemma scanStep_invariant:
  assumes m: "\<forall>r. \<exists>j. json_Marshal lib r = Inr j" and i: "\<forall>j. \<exists>t. json_Indent lib j = Inr t"
    and nl: "CHR 0x0A \<notin> set line"
    and ps: "ParseStatus (logObjectBuffer st) \<in> {0, 1, 2}"
  shows "\<exists>st'. scanStep lib ctx line st = (None, st')
           \<and> ParseStatus (logObjectBuffer st') \<in> {0, 1, 2}
           \<and> map firstLine (started st')
               = map firstLine (started st) @ (if isHeader line then [line] else [])
           \<and> (isHeader line \<longrightarrow> map fst (sink st') = started st
                 \<and> Raw (logObjectBuffer st') = line \<and> ParseStatus (logObjectBuffer st') = 1)
           \<and> (\<not> isHeader line \<longrightarrow> sink st' = sink st)"
proof (cases "isHeader line")
  case True
  obtain r where r: "Raw r = line" "ParseStatus r = 1" and
    step: "scanStep lib ctx line st =
      (if ParseStatus (logObjectBuffer st) = 0 then (None, st\<lparr>logObjectBuffer := r\<rparr>)
       else (let ts = previousTimestampOf (previousLogObject st);
                 res = printResults lib ctx (logObjectBuffer st) ts;
                 st1 = st\<lparr>logObjectBuffer := (logObjectBuffer st)\<lparr>ParseStatus := 3\<rparr>,
                         sink := sink st @ [(logObjectBuffer st, ts)],
                         emitted := emitted st @ snd res\<rparr>
             in if fst res \<noteq> None then (fst res, st1)
                else (None, st1\<lparr>previousLogObject := Some (logObjectBuffer st),
                                logObjectBuffer := r\<rparr>)))"
    using scanStep_header[OF True, of lib ctx st] by blast
  have fl: "firstLine r = line" using firstLine_new[of r] r nl by simp
  have ok: "\<And>a p. fst (printResults lib ctx a p) = None" using printResults_ok[OF m i] by simp
  show ?thesis
  proof (cases "ParseStatus (logObjectBuffer st) = 0")
    case z: True
    then show ?thesis using True r fl step by (simp add: started_def)
  next
    case nz: False
    then show ?thesis using True r fl step ok by (simp add: started_def Let_def)
  qed
next
  case False
  have ps3: "ParseStatus (logObjectBuffer st) \<noteq> 3" using ps by auto
  show ?thesis
    unfolding scanStep_other[OF False ps3] processLogLine_other[OF False]
    using False ps by (auto simp: started_def firstLine_extended)
qed

lemma scanLines_invariant:
  assumes m: "\<forall>r. \<exists>j. json_Marshal lib r = Inr j" and i: "\<forall>j. \<exists>t. json_Indent lib j = Inr t"
    and nl: "\<forall>l\<in>set lines. CHR 0x0A \<notin> set l"
    and ps: "ParseStatus (logObjectBuffer st) \<in> {0, 1, 2}"
  shows "\<exists>st'. scanLines lib ctx lines st = (None, st')
           \<and> ParseStatus (logObjectBuffer st') \<in> {0, 1, 2}
           \<and> map firstLine (started st') = map firstLine (started st) @ filter isHeader lines"
  using nl ps
proof (induction lines arbitrary: st)
  case Nil
  then show ?case by simp
next
  case (Cons line rest)
  show ?case
  proof (cases "line = []")
    case True
    have "\<not> isHeader line" using isHeader_digit[of line] True by auto
    then show ?thesis using Cons True by simp
  next
    case False
    have nl1: "CHR 0x0A \<notin> set line" using Cons.prems(1) by simp
    obtain st1 where st1: "scanStep lib ctx line st = (None, st1)"
        "ParseStatus (logObjectBuffer st1) \<in> {0, 1, 2}"
        "map firstLine (started st1)
           = map firstLine (started st) @ (if isHeader line then [line] else [])"
      using scanStep_invariant[OF m i nl1 Cons.prems(2), of ctx] by blast
    obtain st' where st': "scanLines lib ctx rest st1 = (None, st')"
        "ParseStatus (logObjectBuffer st') \<in> {0, 1, 2}"
        "map firstLine (started st') = map firstLine (started st1) @ filter isHeader rest"
      using Cons.IH[of st1] Cons.prems(1) st1(2) by auto
    show ?thesis using False st1 st' by simp
  qed
qed

lemma scan0_started: "ParseStatus (logObjectBuffer scan0) = 0" "started scan0 = []"
  by (simp_all add: scan0_def started_def zeroSpringLogStruct_def)

lemma readStdin_flush:
  assumes "scanLines lib ctx lines scan0 = (None, st)"
  shows "map fst (sink (snd (readStdin lib ctx (lines, e)))) = started st"
  using assms by (simp add: readStdin_def started_def Let_def split_beta)

text \<open>
  C3. Provided no line holds a line feed (the scanner splits at them) and the JSON
  encoder does not fail: the first lines of the records handed to the sink are, in
  order, the header lines of the input; after every prefix of the input, the first
  lines of the records handed over so far, followed by that of the record in
  progress, are the header lines of that prefix; and right after a header line has
  been processed, the records handed over are those of all earlier header lines,
  while the accumulator holds the record begun by this line.
\<close>

theorem readStdin_order:
  assumes "\<forall>l\<in>set lines. CHR 0x0A \<notin> set l"
    and "\<forall>r. \<exists>j. json_Marshal lib r = Inr j" and "\<forall>j. \<exists>t. json_Indent lib j = Inr t"
  shows "map (firstLine \<circ> fst) (sink (snd (readStdin lib ctx (lines, e)))) = filter isHeader lines
         \<and> (\<forall>n\<le>length lines. \<exists>st. scanLines lib ctx (take n lines) scan0 = (None, st)
                \<and> map firstLine (started st) = filter isHeader (take n lines))
         \<and> (\<forall>n<length lines. isHeader (lines ! n) \<longrightarrow>
               (\<exists>st. scanLines lib ctx (take (Suc n) lines) scan0 = (None, st)
                  \<and> map (firstLine \<circ> fst) (sink st) = filter isHeader (take n lines)
                  \<and> Raw (logObjectBuffer st) = lines ! n
                  \<and> ParseStatus (logObjectBuffer st) = 1))"
proof -
  have z: "ParseStatus (logObjectBuffer scan0) \<in> {0, 1, 2}" by (simp add: scan0_started)
  have pre: "\<exists>st. scanLines lib ctx (take n lines) scan0 = (None, st)
                \<and> ParseStatus (logObjectBuffer st) \<in> {0, 1, 2}
                \<and> map firstLine (started st) = filter isHeader (take n lines)" for n
  proof -
    have "\<forall>l\<in>set (take n lines). CHR 0x0A \<notin> set l" using assms(1) by (meson in_set_takeD)
    then show ?thesis
      using scanLines_invariant[OF assms(2,3) _ z, of "take n lines" ctx]
      by (simp add: scan0_started)
  qed
  have a: "map (firstLine \<circ> fst) (sink (snd (readStdin lib ctx (lines, e)))) = filter isHeader lines"
  proof -
    obtain st where st: "scanLines lib ctx lines scan0 = (None, st)"
        "map firstLine (started st) = filter isHeader lines"
      using pre[of "length lines"] by auto
    have "map (firstLine \<circ> fst) (sink (snd (readStdin lib ctx (lines, e))))
            = map firstLine (map fst (sink (snd (readStdin lib ctx (lines, e)))))"
      by simp
    then show ?thesis using readStdin_flush[OF st(1), of e] st(2) by simp
  qed
  have b: "\<forall>n\<le>length lines. \<exists>st. scanLines lib ctx (take n lines) scan0 = (None, st)
                \<and> map firstLine (started st) = filter isHeader (take n lines)"
    using pre by blast
  have c: "\<exists>st. scanLines lib ctx (take (Suc n) lines) scan0 = (None, st)
                  \<and> map (firstLine \<circ> fst) (sink st) = filter isHeader (take n lines)
                  \<and> Raw (logObjectBuffer st) = lines ! n
                  \<and> ParseStatus (logObjectBuffer st) = 1"
    if n: "n < length lines" and h: "isHeader (lines ! n)" for n
  proof -
    obtain st0 where st0: "scanLines lib ctx (take n lines) scan0 = (None, st0)"
        "ParseStatus (logObjectBuffer st0) \<in> {0, 1, 2}"
        "map firstLine (started st0) = filter isHeader (take n lines)"
      using pre[of n] by blast
    have nl: "CHR 0x0A \<notin> set (lines ! n)" using assms(1) n by simp
    have ne: "lines ! n \<noteq> []" using isHeader_digit[OF h] by simp
    obtain st where st: "scanStep lib ctx (lines ! n) st0 = (None, st)"
        "map fst (sink st) = started st0" "Raw (logObjectBuffer st) = lines ! n"
        "ParseStatus (logObjectBuffer st) = 1"
      using scanStep_invariant[OF assms(2,3) nl st0(2), of ctx] h by blast
    have "scanLines lib ctx (take (Suc n) lines) scan0 = (None, st)"
      using n st0(1) st(1) ne by (simp add: take_Suc_conv_app_nth scanLines_append)
    moreover have "map (firstLine \<circ> fst) (sink st) = map firstLine (map fst (sink st))" by simp
    ultimately show ?thesis using st st0(3) by simp
  qed
  show ?thesis using a b c by blast
qed

lemma printResults_plain: "printResults failingClock plain r p = (None, [Println (Raw r)])"
  by (simp add: printResults_def prettyPrintJson_def failingClock_def plain_def Let_def)

lemma sample_no_newline:
  "CHR 0x0A \<notin> set infoHeader" "CHR 0x0A \<notin> set errorHeader"
  "CHR 0x0A \<notin> set frameLine" "CHR 0x0A \<notin> set tabLine"
  by (simp_all add: infoHeader_def errorHeader_def frameLine_def tabLine_def)

lemma failingClock_json:
  "\<forall>r. \<exists>j. json_Marshal failingClock r = Inr j" "\<forall>j. \<exists>t. json_Indent failingClock j = Inr t"
  by (simp_all add: failingClock_def)

lemma step_first_header:
  "scanStep lib ctx infoHeader scan0 = (None, scan0\<lparr>logObjectBuffer := infoRecord\<rparr>)"
  "scanStep lib ctx errorHeader scan0 = (None, scan0\<lparr>logObjectBuffer := errorRecord\<rparr>)"
  by (simp_all add: scanStep_def scan0_def classify_infoHeader classify_errorHeader Let_def
      sample_fields)

theorem readStdin_order_witness:
  "CHR 0x0A \<notin> set errorHeader \<and> CHR 0x0A \<notin> set tabLine \<and> CHR 0x0A \<notin> set infoHeader
   \<and> (\<forall>r. \<exists>j. json_Marshal failingClock r = Inr j)
   \<and> (\<forall>j. \<exists>t. json_Indent failingClock j = Inr t)
   \<and> isHeader ([errorHeader, tabLine, infoHeader] ! 2)
   \<and> map (firstLine \<circ> fst)
        (sink (snd (readStdin failingClock plain ([errorHeader, tabLine, infoHeader], None))))
       = [errorHeader, infoHeader]
   \<and> (\<exists>st. scanLines failingClock plain (take (Suc 2) [errorHeader, tabLine, infoHeader]) scan0
             = (None, st)
          \<and> map (firstLine \<circ> fst) (sink st)
              = filter isHeader (take 2 [errorHeader, tabLine, infoHeader])
          \<and> Raw (logObjectBuffer st) = [errorHeader, tabLine, infoHeader] ! 2
          \<and> ParseStatus (logObjectBuffer st) = 1)"
proof -
  let ?lines = "[errorHeader, tabLine, infoHeader]"
  have nl: "\<forall>l\<in>set ?lines. CHR 0x0A \<notin> set l" by (simp add: sample_no_newline)
  note t = readStdin_order[OF nl failingClock_json, of plain None]
  have f: "filter isHeader ?lines = [errorHeader, infoHeader]" by (simp add: sample_lines)
  have h: "isHeader (?lines ! 2)" by (simp add: sample_lines)
  have a: "map (firstLine \<circ> fst) (sink (snd (readStdin failingClock plain (?lines, None))))
             = [errorHeader, infoHeader]"
    using t[THEN conjunct1] f by simp
  have b: "\<exists>st. scanLines failingClock plain (take (Suc 2) ?lines) scan0 = (None, st)
          \<and> map (firstLine \<circ> fst) (sink st) = filter isHeader (take 2 ?lines)
          \<and> Raw (logObjectBuffer st) = ?lines ! 2
          \<and> ParseStatus (logObjectBuffer st) = 1"
    by (rule t[THEN conjunct2, THEN conjunct2, rule_format, of 2]) (simp, rule h)
  show ?thesis using a b h sample_no_newline failingClock_json by blast
qed

lemma readStdin_end:
  assumes "scanLines lib ctx lines scan0 = (None, st)"
  shows "sink (snd (readStdin lib ctx (lines, e)))
           = sink st @ (if ParseStatus (logObjectBuffer st) \<noteq> 0
                        then [(logObjectBuffer st, previousTimestampOf (previousLogObject st))]
                        else [])"
  using assms by (simp add: readStdin_def Let_def split_beta)

lemma run_two_headers:
  "scanLines failingClock plain [infoHeader, errorHeader] scan0
     = (None, \<lparr>logObjectBuffer = errorRecord, previousLogObject = Some infoRecord,
               sink = [(infoRecord, [])], emitted = [Println infoHeader]\<rparr>)"
proof -
  have "scanStep failingClock plain errorHeader (scan0\<lparr>logObjectBuffer := infoRecord\<rparr>)
          = (None, \<lparr>logObjectBuffer = errorRecord, previousLogObject = Some infoRecord,
               sink = [(infoRecord, [])], emitted = [Println infoHeader]\<rparr>)"
    by (simp add: scanStep_def scan0_def classify_errorHeader printResults_plain Let_def
        sample_fields previousTimestampOf_def)
  then show ?thesis by (simp add: sample_lines step_first_header)
qed

text \<open>
  C4 fails on the code. With two header lines as input, the first record is handed
  over when the second header line arrives and the second at the end of the input;
  both reach the sink with ParseStatus 1 (first line read), not 3 (completed).
\<close>

theorem handed_over_not_complete:
  "map (ParseStatus \<circ> fst)
     (sink (snd (readStdin failingClock plain ([infoHeader, errorHeader], None)))) = [1, 1]"
  by (simp add: readStdin_end[OF run_two_headers] sample_fields)

lemma run_one_header:
  "scanLines lib ctx [infoHeader] scan0 = (None, scan0\<lparr>logObjectBuffer := infoRecord\<rparr>)"
  "scanLines lib ctx [errorHeader] scan0 = (None, scan0\<lparr>logObjectBuffer := errorRecord\<rparr>)"
  by (simp_all add: sample_lines step_first_header)

lemma run_no_header: "scanLines lib ctx [tabLine] scan0 = (None, scan0)"
proof -
  have "processLogLine tabLine zeroSpringLogStruct = (Nil, None, zeroSpringLogStruct)"
    by (simp add: processLogLine_other sample_lines sample_fields)
  then have "scanStep lib ctx tabLine scan0 = (None, scan0)"
    by (simp add: scanStep_def scan0_def Let_def sample_fields)
  then show ?thesis by (simp add: sample_lines)
qed

lemma readStdin_result:
  assumes "scanLines lib ctx lines scan0 = (None, st)"
  shows "readStdin lib ctx (lines, e) =
     (if ParseStatus (logObjectBuffer st) \<noteq> 0
      then (let ts = previousTimestampOf (previousLogObject st);
                res = printResults lib ctx (logObjectBuffer st) ts;
                st' = st\<lparr>sink := sink st @ [(logObjectBuffer st, ts)],
                        emitted := emitted st @ snd res\<rparr>
            in if fst res \<noteq> None then (fst res, st') else (e, st'))
      else (e, st))"
  using assms by (simp add: readStdin_def Let_def split_beta)

lemma run_one_result:
  "readStdin failingClock plain ([infoHeader], e)
     = (e, scan0\<lparr>logObjectBuffer := infoRecord, sink := [(infoRecord, [])],
                   emitted := [Println infoHeader]\<rparr>)"
  "readStdin failingClock plain ([errorHeader], e)
     = (e, scan0\<lparr>logObjectBuffer := errorRecord, sink := [(errorRecord, [])],
                   emitted := [Println errorHeader]\<rparr>)"
  unfolding readStdin_result[OF run_one_header(1)] readStdin_result[OF run_one_header(2)]
  by (simp_all add: printResults_plain Let_def sample_fields scan0_def previousTimestampOf_def)

text \<open>
  C5, as the code has it. A read error changes nothing in what the driver does with
  the lines read before it: the state at the end, the record in progress handed to the
  sink included, is the one of a clean end of input. The result is an error, so the
  exit status is 1; it is the read error whenever the clean run returns no error.
\<close>

theorem readStdin_read_error:
  "snd (readStdin lib ctx (lines, Some e)) = snd (readStdin lib ctx (lines, None))
   \<and> fst (readStdin lib ctx (lines, Some e)) \<noteq> None
   \<and> fst (main lib setupErr ctx (lines, Some e)) = 1
   \<and> (fst (readStdin lib ctx (lines, None)) = None
        \<longrightarrow> fst (readStdin lib ctx (lines, Some e)) = Some e)
   \<and> (\<forall>st. scanLines lib ctx lines scan0 = (None, st) \<and> ParseStatus (logObjectBuffer st) \<noteq> 0
        \<longrightarrow> sink (snd (readStdin lib ctx (lines, Some e)))
              = sink st @ [(logObjectBuffer st, previousTimestampOf (previousLogObject st))])"
proof -
  have a: "snd (readStdin lib ctx (lines, Some e)) = snd (readStdin lib ctx (lines, None))"
    by (simp add: readStdin_def Let_def split_beta split: option.splits)
  have b: "fst (readStdin lib ctx (lines, Some e)) \<noteq> None"
    by (simp add: readStdin_def Let_def split_beta split: option.splits)
  have c: "fst (main lib setupErr ctx (lines, Some e)) = 1"
    using b by (cases "readStdin lib ctx (lines, Some e)") (auto simp: main_def Let_def)
  have d: "fst (readStdin lib ctx (lines, None)) = None
            \<longrightarrow> fst (readStdin lib ctx (lines, Some e)) = Some e"
    by (simp add: readStdin_def Let_def split_beta split: option.splits if_splits)
  have f: "\<forall>st. scanLines lib ctx lines scan0 = (None, st) \<and> ParseStatus (logObjectBuffer st) \<noteq> 0
        \<longrightarrow> sink (snd (readStdin lib ctx (lines, Some e)))
              = sink st @ [(logObjectBuffer st, previousTimestampOf (previousLogObject st))]"
    by (simp add: readStdin_end)
  show ?thesis using a b c d f by blast
qed

theorem readStdin_read_error_witness:
  "fst (readStdin failingClock plain ([errorHeader], None)) = None
   \<and> fst (readStdin failingClock plain ([errorHeader], Some (Error ''unexpected EOF'')))
       = Some (Error ''unexpected EOF'')
   \<and> scanLines failingClock plain [errorHeader] scan0 = (None, scan0\<lparr>logObjectBuffer := errorRecord\<rparr>)
   \<and> ParseStatus (logObjectBuffer (scan0\<lparr>logObjectBuffer := errorRecord\<rparr>)) \<noteq> 0
   \<and> sink (snd (readStdin failingClock plain ([errorHeader], Some (Error ''unexpected EOF''))))
       = [(errorRecord, [])]
   \<and> fst (main failingClock None plain ([errorHeader], Some (Error ''unexpected EOF''))) = 1"
proof -
  note t = readStdin_read_error[of failingClock plain "[errorHeader]" "Error ''unexpected EOF''" None]
  have n: "fst (readStdin failingClock plain ([errorHeader], None)) = None"
    by (simp add: run_one_result)
  have p: "ParseStatus (logObjectBuffer (scan0\<lparr>logObjectBuffer := errorRecord\<rparr>)) \<noteq> 0"
    by (simp add: sample_fields)
  have "sink (snd (readStdin failingClock plain ([errorHeader], Some (Error ''unexpected EOF''))))
       = sink (scan0\<lparr>logObjectBuffer := errorRecord\<rparr>)
         @ [(logObjectBuffer (scan0\<lparr>logObjectBuffer := errorRecord\<rparr>),
             previousTimestampOf (previousLogObject (scan0\<lparr>logObjectBuffer := errorRecord\<rparr>)))]"
    by (rule t[THEN conjunct2, THEN conjunct2, THEN conjunct2, THEN conjunct2, rule_format])
       (intro conjI, rule run_one_header(2), rule p)
  then have s: "sink (snd (readStdin failingClock plain ([errorHeader], Some (Error ''unexpected EOF''))))
       = [(errorRecord, [])]"
    by (simp add: scan0_def previousTimestampOf_def)
  have e: "fst (readStdin failingClock plain ([errorHeader], Some (Error ''unexpected EOF'')))
       = Some (Error ''unexpected EOF'')"
    using t n by blast
  have x: "fst (main failingClock None plain ([errorHeader], Some (Error ''unexpected EOF''))) = 1"
    using t by blast
  show ?thesis using n e p s x run_one_header(2)[of failingClock plain] by blast
qed

text \<open>
  C5 as stated fails: after a header line and then a read error, the record in
  progress is handed to the sink and written before the error is returned.
\<close>

theorem read_error_flush_counterexample:
  "fst (readStdin failingClock plain ([infoHeader], Some (Error ''unexpected EOF'')))
     = Some (Error ''unexpected EOF'')
   \<and> sink (snd (readStdin failingClock plain ([infoHeader], Some (Error ''unexpected EOF''))))
       = [(infoRecord, [])]
   \<and> emitted (snd (readStdin failingClock plain ([infoHeader], Some (Error ''unexpected EOF''))))
       = [Println infoHeader]"
  by (simp add: run_one_result scan0_def)

text \<open>
  C6. When the loop has ended, one more record is handed to the sink if the
  accumulator is not empty (ParseStatus is not 0), and none if it is empty; with no
  input at all, nothing is handed over and nothing is written.
\<close>

theorem end_of_input_flush:
  "(scanLines lib ctx lines scan0 = (None, st) \<and> ParseStatus (logObjectBuffer st) \<noteq> 0
      \<longrightarrow> sink (snd (readStdin lib ctx (lines, e)))
            = sink st @ [(logObjectBuffer st, previousTimestampOf (previousLogObject st))])
   \<and> (scanLines lib ctx lines scan0 = (None, st) \<and> ParseStatus (logObjectBuffer st) = 0
      \<longrightarrow> sink (snd (readStdin lib ctx (lines, e))) = sink st)
   \<and> sink (snd (readStdin lib ctx ([], e))) = []
   \<and> emitted (snd (readStdin lib ctx ([], e))) = []"
proof -
  have "sink (snd (readStdin lib ctx ([], e))) = []" "emitted (snd (readStdin lib ctx ([], e))) = []"
    by (simp_all add: readStdin_def scan0_def zeroSpringLogStruct_def)
  then show ?thesis by (simp add: readStdin_end)
qed

theorem end_of_input_flush_witness:
  "scanLines failingClock plain [infoHeader] scan0 = (None, scan0\<lparr>logObjectBuffer := infoRecord\<rparr>)
   \<and> ParseStatus (logObjectBuffer (scan0\<lparr>logObjectBuffer := infoRecord\<rparr>)) \<noteq> 0
   \<and> sink (snd (readStdin failingClock plain ([infoHeader], None))) = [(infoRecord, [])]
   \<and> scanLines failingClock plain [tabLine] scan0 = (None, scan0)
   \<and> ParseStatus (logObjectBuffer scan0) = 0
   \<and> sink (snd (readStdin failingClock plain ([tabLine], None))) = []"
proof -
  note a = end_of_input_flush[of failingClock plain "[infoHeader]"
      "scan0\<lparr>logObjectBuffer := infoRecord\<rparr>" None]
  note b = end_of_input_flush[of failingClock plain "[tabLine]" scan0 None]
  have p: "ParseStatus (logObjectBuffer (scan0\<lparr>logObjectBuffer := infoRecord\<rparr>)) \<noteq> 0"
    by (simp add: sample_fields)
  have "sink (snd (readStdin failingClock plain ([infoHeader], None)))
       = sink (scan0\<lparr>logObjectBuffer := infoRecord\<rparr>)
         @ [(logObjectBuffer (scan0\<lparr>logObjectBuffer := infoRecord\<rparr>),
             previousTimestampOf (previousLogObject (scan0\<lparr>logObjectBuffer := infoRecord\<rparr>)))]"
    by (rule a[THEN conjunct1, rule_format]) (intro conjI, rule run_one_header(1), rule p)
  then have s1: "sink (snd (readStdin failingClock plain ([infoHeader], None))) = [(infoRecord, [])]"
    by (simp add: scan0_def previousTimestampOf_def)
  have "sink (snd (readStdin failingClock plain ([tabLine], None))) = sink scan0"
    by (rule b[THEN conjunct2, THEN conjunct1, rule_format])
       (intro conjI, rule run_no_header, rule scan0_started(1))
  then have s2: "sink (snd (readStdin failingClock plain ([tabLine], None))) = []"
    by (simp add: scan0_def)
  show ?thesis
    using s1 s2 p run_one_header(1)[of failingClock plain] run_no_header[of failingClock plain]
      scan0_started(1)
    by blast
qed

lemma scanLines_skip_empty:
  "scanLines lib ctx (pre @ [] # post) st = scanLines lib ctx (pre @ post) st"
  by (simp add: scanLines_append split: prod.splits option.splits)

text \<open>
  C8. An empty line, wherever it stands in the input, changes nothing: the loop
  goes on with the lines after it, and the run with the empty line and the run
  without it end with the same result, the same accumulator, the same records handed
  to the sink and the same text written.
\<close>

theorem empty_line_skipped:
  "scanLines lib ctx ([] # post) st = scanLines lib ctx post st
   \<and> scanLines lib ctx (pre @ [] # post) st = scanLines lib ctx (pre @ post) st
   \<and> readStdin lib ctx (pre @ [] # post, e) = readStdin lib ctx (pre @ post, e)"
  by (simp add: scanLines_skip_empty readStdin_def Let_def split_beta split: option.splits)

theorem empty_line_skipped_witness:
  "readStdin failingClock plain ([infoHeader] @ [] # [errorHeader], None)
     = readStdin failingClock plain ([infoHeader] @ [errorHeader], None)
   \<and> map (firstLine \<circ> fst) (sink (snd (readStdin failingClock plain ([infoHeader, [], errorHeader], None))))
       = [infoHeader, errorHeader]"
proof -
  have "map (firstLine \<circ> fst) (sink (snd (readStdin failingClock plain ([infoHeader] @ [errorHeader], None))))
          = [infoHeader, errorHeader]"
    using readStdin_end[OF run_two_headers, of None]
    by (simp add: sample_fields firstLine_new sample_no_newline)
  then show ?thesis
    using empty_line_skipped[of failingClock plain "[errorHeader]" scan0 "[infoHeader]" None]
    by simp
qed

section \<open>The filters\<close>

lemma strings_Contains_iff: "strings_Contains s t = (\<exists>a b. s = a @ t @ b)"
proof (induction s)
  case Nil
  then show ?case by simp
next
  case (Cons c cs)
  show ?case
  proof
    assume "strings_Contains (c # cs) t"
    then consider "prefix t (c # cs)" | "strings_Contains cs t" by auto
    then show "\<exists>a b. c # cs = a @ t @ b"
    proof cases
      case 1
      then obtain b where "c # cs = t @ b" by (auto simp: prefix_def)
      then have "c # cs = [] @ t @ b" by simp
      then show ?thesis by blast
    next
      case 2
      then obtain a b where "cs = a @ t @ b" using Cons.IH by blast
      then have "c # cs = (c # a) @ t @ b" by simp
      then show ?thesis by blast
    qed
  next
    assume "\<exists>a b. c # cs = a @ t @ b"
    then obtain a b where ab: "c # cs = a @ t @ b" by blast
    show "strings_Contains (c # cs) t"
    proof (cases a)
      case Nil
      then have "prefix t (c # cs)" using ab by (simp add: prefix_def)
      then show ?thesis by simp
    next
      case (Cons x a')
      then have "cs = a' @ t @ b" using ab by simp
      then have "strings_Contains cs t" using Cons.IH by blast
      then show ?thesis by simp
    qed
  qed
qed

text \<open>
  C7. With both filters set, a record is rendered exactly when its level equals the
  level filter and its raw text contains the content filter; with only the level
  filter, exactly when the level is equal; with only the content filter, exactly when
  the raw text contains it; with neither, always. A record that is not rendered
  leaves no output and no error. Equality is equality of the two byte strings, and
  containment is that of a contiguous substring.
\<close>

theorem printResults_filters:
  "(ParserContext.Level ctx \<noteq> [] \<and> Filter ctx \<noteq> [] \<longrightarrow>
      printResults lib ctx r p
        = (if Level r = ParserContext.Level ctx \<and> strings_Contains (Raw r) (Filter ctx)
           then prettyPrintJson lib r ctx p else (None, [])))
   \<and> (ParserContext.Level ctx \<noteq> [] \<and> Filter ctx = [] \<longrightarrow>
      printResults lib ctx r p
        = (if Level r = ParserContext.Level ctx then prettyPrintJson lib r ctx p else (None, [])))
   \<and> (ParserContext.Level ctx = [] \<and> Filter ctx \<noteq> [] \<longrightarrow>
      printResults lib ctx r p
        = (if strings_Contains (Raw r) (Filter ctx) then prettyPrintJson lib r ctx p
           else (None, [])))
   \<and> (ParserContext.Level ctx = [] \<and> Filter ctx = [] \<longrightarrow>
      printResults lib ctx r p = prettyPrintJson lib r ctx p)
   \<and> strings_Contains (Raw r) (Filter ctx) = (\<exists>a b. Raw r = a @ Filter ctx @ b)"
  by (simp add: printResults_def checkLevel_def checkFilter_def Let_def strings_Contains_iff)

theorem printResults_filters_witness:
  "ParserContext.Level errorTimeout \<noteq> [] \<and> Filter errorTimeout \<noteq> []
   \<and> printResults failingClock errorTimeout errorRecord [] = (None, [Println errorHeader])
   \<and> printResults failingClock errorTimeout (errorRecord\<lparr>Raw := ''ERROR disk full''\<rparr>) []
       = (None, [])
   \<and> printResults failingClock errorTimeout infoRecord [] = (None, [])
   \<and> ParserContext.Level plain = [] \<and> Filter plain = []
   \<and> printResults failingClock plain infoRecord [] = (None, [Println infoHeader])"
proof -
  have c: "ParserContext.Level errorTimeout \<noteq> []" "Filter errorTimeout \<noteq> []"
      "ParserContext.Level plain = []" "Filter plain = []"
    by (simp_all add: errorTimeout_def plain_def)
  have y: "strings_Contains (Raw errorRecord) (Filter errorTimeout)"
    by (simp add: errorTimeout_def errorRecord_def errorHeader_def)
  have n: "\<not> strings_Contains (Raw (errorRecord\<lparr>Raw := ''ERROR disk full''\<rparr>)) (Filter errorTimeout)"
    by (simp add: errorTimeout_def)
  have l: "Level errorRecord = ParserContext.Level errorTimeout"
      "Level (errorRecord\<lparr>Raw := ''ERROR disk full''\<rparr>) = ParserContext.Level errorTimeout"
      "Level infoRecord \<noteq> ParserContext.Level errorTimeout"
    by (simp_all add: errorTimeout_def sample_fields)
  have pp: "prettyPrintJson failingClock errorRecord errorTimeout [] = (None, [Println errorHeader])"
      "prettyPrintJson failingClock infoRecord plain [] = (None, [Println infoHeader])"
    by (simp_all add: prettyPrintJson_def failingClock_def errorTimeout_def plain_def sample_fields)
  show ?thesis
    using printResults_filters[of errorTimeout failingClock errorRecord "[]"]
      printResults_filters[of errorTimeout failingClock "errorRecord\<lparr>Raw := ''ERROR disk full''\<rparr>" "[]"]
      printResults_filters[of errorTimeout failingClock infoRecord "[]"]
      printResults_filters[of plain failingClock infoRecord "[]"]
      c y n l pp
    by simp
qed

section \<open>Timestamps that do not parse\<close>

lemma prettyPrintJson_clock:
  "fst (prettyPrintJson (lib\<lparr>time_Parse := tp, minutesAndSeconds := ms\<rparr>) r ctx p)
     = fst (prettyPrintJson lib r ctx p)"
  by (simp add: prettyPrintJson_error split: sum.splits)

lemma printResults_clock:
  "fst (printResults (lib\<lparr>time_Parse := tp, minutesAndSeconds := ms\<rparr>) ctx r p)
     = fst (printResults lib ctx r p)"
  by (simp add: printResults_def Let_def prettyPrintJson_clock)

lemma scanStep_clock:
  assumes "core st' = core st"
  shows "fst (scanStep (lib\<lparr>time_Parse := tp, minutesAndSeconds := ms\<rparr>) ctx line st')
           = fst (scanStep lib ctx line st)
         \<and> core (snd (scanStep (lib\<lparr>time_Parse := tp, minutesAndSeconds := ms\<rparr>) ctx line st'))
           = core (snd (scanStep lib ctx line st))"
proof -
  have eq: "logObjectBuffer st' = logObjectBuffer st" "previousLogObject st' = previousLogObject st"
      "sink st' = sink st"
    using assms by (simp_all add: core_def)
  show ?thesis
    by (simp add: scanStep_def Let_def split_beta core_def eq printResults_clock
        split: logLine.splits)
qed

lemma scanLines_clock:
  assumes "core st' = core st"
  shows "fst (scanLines (lib\<lparr>time_Parse := tp, minutesAndSeconds := ms\<rparr>) ctx lines st')
           = fst (scanLines lib ctx lines st)
         \<and> core (snd (scanLines (lib\<lparr>time_Parse := tp, minutesAndSeconds := ms\<rparr>) ctx lines st'))
           = core (snd (scanLines lib ctx lines st))"
  using assms
proof (induction lines arbitrary: st st')
  case Nil
  then show ?case by simp
next
  case (Cons line rest)
  let ?lib' = "lib\<lparr>time_Parse := tp, minutesAndSeconds := ms\<rparr>"
  show ?case
  proof (cases "line = []")
    case True
    then show ?thesis using Cons by simp
  next
    case False
    obtain e1 s1 where s1: "scanStep lib ctx line st = (e1, s1)" by (cases "scanStep lib ctx line st")
    obtain e2 s2 where s2: "scanStep ?lib' ctx line st' = (e2, s2)"
      by (cases "scanStep ?lib' ctx line st'")
    have rel: "e2 = e1" "core s2 = core s1"
      using scanStep_clock[OF Cons.prems, where lib = lib and tp = tp and ms = ms and ctx = ctx
          and line = line] s1 s2 by simp_all
    show ?thesis
    proof (cases e1)
      case None
      then show ?thesis using False s1 s2 rel Cons.IH[OF rel(2)] by simp
    next
      case (Some e)
      then show ?thesis using False s1 s2 rel by simp
    qed
  qed
qed

lemma readStdin_clock:
  "fst (readStdin (lib\<lparr>time_Parse := tp, minutesAndSeconds := ms\<rparr>) ctx stdin)
     = fst (readStdin lib ctx stdin)
   \<and> core (snd (readStdin (lib\<lparr>time_Parse := tp, minutesAndSeconds := ms\<rparr>) ctx stdin))
     = core (snd (readStdin lib ctx stdin))"
proof -
  let ?lib' = "lib\<lparr>time_Parse := tp, minutesAndSeconds := ms\<rparr>"
  obtain e1 s1 where s1: "scanLines lib ctx (fst stdin) scan0 = (e1, s1)"
    by (cases "scanLines lib ctx (fst stdin) scan0")
  obtain e2 s2 where s2: "scanLines ?lib' ctx (fst stdin) scan0 = (e2, s2)"
    by (cases "scanLines ?lib' ctx (fst stdin) scan0")
  have rel: "e2 = e1" "core s2 = core s1"
    using scanLines_clock[where st = scan0 and st' = scan0 and lib = lib and tp = tp and ms = ms
          and ctx = ctx and lines = "fst stdin"] s1 s2 by simp_all
  have eq: "logObjectBuffer s2 = logObjectBuffer s1" "previousLogObject s2 = previousLogObject s1"
      "sink s2 = sink s1"
    using rel(2) by (simp_all add: core_def)
  show ?thesis
    by (cases e1)
       (simp_all add: readStdin_def s1 s2 rel(1) eq Let_def split_beta core_def printResults_clock)
qed

lemma readStdin_no_error:
  assumes "\<forall>r. \<exists>j. json_Marshal lib r = Inr j" and "\<forall>j. \<exists>t. json_Indent lib j = Inr t"
    and "\<forall>l\<in>set lines. CHR 0x0A \<notin> set l"
  shows "fst (readStdin lib ctx (lines, e)) = e"
proof -
  have z: "ParseStatus (logObjectBuffer scan0) \<in> {0, 1, 2}" by (simp add: scan0_started)
  obtain st where st: "scanLines lib ctx lines scan0 = (None, st)"
    using scanLines_invariant[OF assms z, of ctx] by blast
  show ?thesis
    unfolding readStdin_result[OF st]
    by (simp add: Let_def printResults_ok[OF assms(1,2)])
qed

lemma readStdin_headers:
  assumes "\<forall>r. \<exists>j. json_Marshal lib r = Inr j" and "\<forall>j. \<exists>t. json_Indent lib j = Inr t"
    and "\<forall>l\<in>set lines. CHR 0x0A \<notin> set l"
  shows "map (firstLine \<circ> fst) (sink (snd (readStdin lib ctx (lines, e)))) = filter isHeader lines"
proof -
  have z: "ParseStatus (logObjectBuffer scan0) \<in> {0, 1, 2}" by (simp add: scan0_started)
  obtain st where st: "scanLines lib ctx lines scan0 = (None, st)"
      "map firstLine (started st) = map firstLine (started scan0) @ filter isHeader lines"
    using scanLines_invariant[OF assms z, of ctx] by blast
  have "map (firstLine \<circ> fst) (sink (snd (readStdin lib ctx (lines, e))))
          = map firstLine (map fst (sink (snd (readStdin lib ctx (lines, e)))))"
    by simp
  then show ?thesis using readStdin_flush[OF st(1), of e] st(2) by (simp add: scan0_started)
qed

lemma scanStep_emitted:
  assumes "emitted st = sinkOutput lib ctx (sink st)"
  shows "emitted (snd (scanStep lib ctx line st))
           = sinkOutput lib ctx (sink (snd (scanStep lib ctx line st)))"
  using assms
  by (simp add: scanStep_def Let_def split_beta sinkOutput_def split: logLine.splits)

lemma scanLines_emitted:
  assumes "emitted st = sinkOutput lib ctx (sink st)"
  shows "emitted (snd (scanLines lib ctx lines st))
           = sinkOutput lib ctx (sink (snd (scanLines lib ctx lines st)))"
  using assms
proof (induction lines arbitrary: st)
  case Nil
  then show ?case by simp
next
  case (Cons line rest)
  show ?case
  proof (cases "line = []")
    case True
    then show ?thesis using Cons by simp
  next
    case False
    obtain e1 s1 where s1: "scanStep lib ctx line st = (e1, s1)" by (cases "scanStep lib ctx line st")
    have em: "emitted s1 = sinkOutput lib ctx (sink s1)"
      using scanStep_emitted[OF Cons.prems, of line] s1 by simp
    show ?thesis
    proof (cases e1)
      case None
      then show ?thesis using False s1 Cons.IH[OF em] by simp
    next
      case (Some err)
      then show ?thesis using False s1 em by simp
    qed
  qed
qed

lemma readStdin_emitted:
  "emitted (snd (readStdin lib ctx stdin)) = sinkOutput lib ctx (sink (snd (readStdin lib ctx stdin)))"
proof -
  have z: "emitted scan0 = sinkOutput lib ctx (sink scan0)" by (simp add: scan0_def sinkOutput_def)
  obtain e1 s1 where s1: "scanLines lib ctx (fst stdin) scan0 = (e1, s1)"
    by (cases "scanLines lib ctx (fst stdin) scan0")
  have em: "emitted s1 = sinkOutput lib ctx (sink s1)"
    using scanLines_emitted[OF z, of "fst stdin"] s1 by simp
  show ?thesis
    by (cases e1) (simp_all add: readStdin_def s1 em Let_def split_beta sinkOutput_def)
qed

lemma sinkOutput_member:
  assumes "(r, p) \<in> set calls" and "ev \<in> set (snd (printResults lib ctx r p))"
  shows "ev \<in> set (sinkOutput lib ctx calls)"
  using assms by (force simp: sinkOutput_def)

lemma printResults_shown:
  assumes "ParserContext.Level ctx = [] \<or> Level r = ParserContext.Level ctx"
    and "Filter ctx = [] \<or> strings_Contains (Raw r) (Filter ctx)"
  shows "printResults lib ctx r p = prettyPrintJson lib r ctx p"
  using assms by (auto simp: printResults_def checkLevel_def checkFilter_def Let_def)

lemma prettyPrintJson_message:
  assumes "json_Marshal lib r = Inr j" and "json_Indent lib j = Inr t" and "Pretty ctx"
  shows "Println (''MESSAGE: '' @ Message r) \<in> set (snd (prettyPrintJson lib r ctx p))"
  using assms by (simp add: prettyPrintJson_def Let_def split_beta)

lemma prettyPrintJson_recovery:
  assumes "json_Marshal lib r = Inr j" and "json_Indent lib j = Inr t" and "Pretty ctx"
    and "p \<noteq> []" and "isl (parseTime lib p) \<or> isl (parseTime lib (Time r))"
  shows "fst (prettyPrintJson lib r ctx p) = None
        \<and> Println ''DIFF:    0 minutes and 0 seconds'' \<in> set (snd (prettyPrintJson lib r ctx p))
        \<and> Println (''MESSAGE: '' @ Message r) \<in> set (snd (prettyPrintJson lib r ctx p))
        \<and> (\<forall>e. parseTime lib p = Inl e \<longrightarrow>
              Slog_Error ''Error parsing previous timestamp''
                [(''timestamp'', Str p), (''error'', Err e)]
              \<in> set (snd (prettyPrintJson lib r ctx p)))
        \<and> (\<forall>e. parseTime lib (Time r) = Inl e \<longrightarrow>
              Slog_Error ''Error parsing current timestamp''
                [(''timestamp'', Str (Time r)), (''error'', Err e)]
              \<in> set (snd (prettyPrintJson lib r ctx p)))"
  using assms
  by (cases "parseTime lib p"; cases "parseTime lib (Time r)")
     (simp_all add: prettyPrintJson_def Let_def)

text \<open>
  C9. When \<open>prettyPrintJson\<close> computes the difference to the previous timestamp
  (pretty printing is on, there is a previous timestamp, the JSON encoding succeeded)
  and one of the two timestamps does not parse: it returns no error, it logs the
  failure of each timestamp that does not parse, it prints a difference of 0 minutes
  and 0 seconds, and it goes on to print the rest of the record. Moreover the result
  of the sink, the result of the driver, its accumulator and the records it hands
  over, and the exit status do not depend on how timestamps parse.

  In a run of the driver: what it writes is, call by call, what the sink writes for
  the records handed over. However timestamps parse (no line holding a line feed, the
  JSON encoder not failing), every header line of the input has its record handed to
  the sink, in order, those after a timestamp that did not parse included; the driver
  returns nothing but the read error, and the exit status at the end of the input is
  0. Every record handed over that passes the filters with pretty printing on has its
  message line written by the run; if its difference is computed and a timestamp does
  not parse, the run has written the difference of 0 minutes and 0 seconds and the
  log record of each failure.
\<close>

theorem timestamp_parse_failure:
  "(json_Marshal lib r = Inr j \<and> json_Indent lib j = Inr t \<and> Pretty ctx \<and> p \<noteq> []
      \<and> (isl (parseTime lib p) \<or> isl (parseTime lib (Time r)))
    \<longrightarrow> fst (prettyPrintJson lib r ctx p) = None
        \<and> Println ''DIFF:    0 minutes and 0 seconds'' \<in> set (snd (prettyPrintJson lib r ctx p))
        \<and> Println (''MESSAGE: '' @ Message r) \<in> set (snd (prettyPrintJson lib r ctx p))
        \<and> (\<forall>e. parseTime lib p = Inl e \<longrightarrow>
              Slog_Error ''Error parsing previous timestamp''
                [(''timestamp'', Str p), (''error'', Err e)]
              \<in> set (snd (prettyPrintJson lib r ctx p)))
        \<and> (\<forall>e. parseTime lib (Time r) = Inl e \<longrightarrow>
              Slog_Error ''Error parsing current timestamp''
                [(''timestamp'', Str (Time r)), (''error'', Err e)]
              \<in> set (snd (prettyPrintJson lib r ctx p))))
   \<and> fst (printResults (lib\<lparr>time_Parse := tp, minutesAndSeconds := ms\<rparr>) ctx r p)
       = fst (printResults lib ctx r p)
   \<and> fst (readStdin (lib\<lparr>time_Parse := tp, minutesAndSeconds := ms\<rparr>) ctx stdin)
       = fst (readStdin lib ctx stdin)
   \<and> core (snd (readStdin (lib\<lparr>time_Parse := tp, minutesAndSeconds := ms\<rparr>) ctx stdin))
       = core (snd (readStdin lib ctx stdin))
   \<and> fst (main (lib\<lparr>time_Parse := tp, minutesAndSeconds := ms\<rparr>) setupErr ctx stdin)
       = fst (main lib setupErr ctx stdin)
   \<and> emitted (snd (readStdin lib ctx stdin))
       = sinkOutput lib ctx (sink (snd (readStdin lib ctx stdin)))
   \<and> ((\<forall>l\<in>set lines. CHR 0x0A \<notin> set l) \<and> (\<forall>r. \<exists>j. json_Marshal lib r = Inr j)
        \<and> (\<forall>j. \<exists>t. json_Indent lib j = Inr t)
      \<longrightarrow> fst (readStdin lib ctx (lines, e)) = e
          \<and> map (firstLine \<circ> fst) (sink (snd (readStdin lib ctx (lines, e))))
              = filter isHeader lines
          \<and> fst (main lib setupErr ctx (lines, None)) = 0)
   \<and> (\<forall>r' p' j' t'.
         (r', p') \<in> set (sink (snd (readStdin lib ctx stdin)))
         \<and> (ParserContext.Level ctx = [] \<or> Level r' = ParserContext.Level ctx)
         \<and> (Filter ctx = [] \<or> strings_Contains (Raw r') (Filter ctx))
         \<and> Pretty ctx \<and> json_Marshal lib r' = Inr j' \<and> json_Indent lib j' = Inr t'
       \<longrightarrow> Println (''MESSAGE: '' @ Message r') \<in> set (emitted (snd (readStdin lib ctx stdin)))
           \<and> (p' \<noteq> [] \<and> (isl (parseTime lib p') \<or> isl (parseTime lib (Time r')))
               \<longrightarrow> Println ''DIFF:    0 minutes and 0 seconds''
                     \<in> set (emitted (snd (readStdin lib ctx stdin)))
                   \<and> (\<forall>e. parseTime lib p' = Inl e \<longrightarrow>
                         Slog_Error ''Error parsing previous timestamp''
                           [(''timestamp'', Str p'), (''error'', Err e)]
                         \<in> set (emitted (snd (readStdin lib ctx stdin))))
                   \<and> (\<forall>e. parseTime lib (Time r') = Inl e \<longrightarrow>
                         Slog_Error ''Error parsing current timestamp''
                           [(''timestamp'', Str (Time r')), (''error'', Err e)]
                         \<in> set (emitted (snd (readStdin lib ctx stdin))))))"
proof -
  let ?lib' = "lib\<lparr>time_Parse := tp, minutesAndSeconds := ms\<rparr>"
  let ?run = "snd (readStdin lib ctx stdin)"
  have a: "json_Marshal lib r = Inr j \<and> json_Indent lib j = Inr t \<and> Pretty ctx \<and> p \<noteq> []
      \<and> (isl (parseTime lib p) \<or> isl (parseTime lib (Time r)))
    \<longrightarrow> fst (prettyPrintJson lib r ctx p) = None
        \<and> Println ''DIFF:    0 minutes and 0 seconds'' \<in> set (snd (prettyPrintJson lib r ctx p))
        \<and> Println (''MESSAGE: '' @ Message r) \<in> set (snd (prettyPrintJson lib r ctx p))
        \<and> (\<forall>e. parseTime lib p = Inl e \<longrightarrow>
              Slog_Error ''Error parsing previous timestamp''
                [(''timestamp'', Str p), (''error'', Err e)]
              \<in> set (snd (prettyPrintJson lib r ctx p)))
        \<and> (\<forall>e. parseTime lib (Time r) = Inl e \<longrightarrow>
              Slog_Error ''Error parsing current timestamp''
                [(''timestamp'', Str (Time r)), (''error'', Err e)]
              \<in> set (snd (prettyPrintJson lib r ctx p)))"
    using prettyPrintJson_recovery[of lib r j t ctx p] by blast
  have m: "fst (main ?lib' setupErr ctx stdin) = fst (main lib setupErr ctx stdin)"
  proof -
    obtain e1 s1 where s1: "readStdin lib ctx stdin = (e1, s1)" by (cases "readStdin lib ctx stdin")
    obtain e2 s2 where s2: "readStdin ?lib' ctx stdin = (e2, s2)"
      by (cases "readStdin ?lib' ctx stdin")
    have "e2 = e1" using readStdin_clock[where lib = lib and tp = tp and ms = ms and ctx = ctx
          and stdin = stdin] s1 s2 by simp
    then show ?thesis by (cases e1) (simp_all add: main_def s1 s2 Let_def)
  qed
  have n1: "emitted ?run = sinkOutput lib ctx (sink ?run)" by (rule readStdin_emitted)
  have n2: "(\<forall>l\<in>set lines. CHR 0x0A \<notin> set l) \<and> (\<forall>r. \<exists>j. json_Marshal lib r = Inr j)
        \<and> (\<forall>j. \<exists>t. json_Indent lib j = Inr t)
      \<longrightarrow> fst (readStdin lib ctx (lines, e)) = e
          \<and> map (firstLine \<circ> fst) (sink (snd (readStdin lib ctx (lines, e))))
              = filter isHeader lines
          \<and> fst (main lib setupErr ctx (lines, None)) = 0"
  proof (intro impI, elim conjE)
    assume h: "\<forall>l\<in>set lines. CHR 0x0A \<notin> set l" "\<forall>r. \<exists>j. json_Marshal lib r = Inr j"
        "\<forall>j. \<exists>t. json_Indent lib j = Inr t"
    have "fst (readStdin lib ctx (lines, None)) = None"
      by (rule readStdin_no_error[OF h(2,3,1)])
    then have "fst (main lib setupErr ctx (lines, None)) = 0"
      by (cases "readStdin lib ctx (lines, None)") (simp add: main_def Let_def)
    then show "fst (readStdin lib ctx (lines, e)) = e
          \<and> map (firstLine \<circ> fst) (sink (snd (readStdin lib ctx (lines, e))))
              = filter isHeader lines
          \<and> fst (main lib setupErr ctx (lines, None)) = 0"
      using readStdin_no_error[OF h(2,3,1), of ctx e] readStdin_headers[OF h(2,3,1), of ctx e]
      by simp
  qed
  have n3: "Println (''MESSAGE: '' @ Message r') \<in> set (emitted ?run)
           \<and> (p' \<noteq> [] \<and> (isl (parseTime lib p') \<or> isl (parseTime lib (Time r')))
               \<longrightarrow> Println ''DIFF:    0 minutes and 0 seconds'' \<in> set (emitted ?run)
                   \<and> (\<forall>e. parseTime lib p' = Inl e \<longrightarrow>
                         Slog_Error ''Error parsing previous timestamp''
                           [(''timestamp'', Str p'), (''error'', Err e)]
                         \<in> set (emitted ?run))
                   \<and> (\<forall>e. parseTime lib (Time r') = Inl e \<longrightarrow>
                         Slog_Error ''Error parsing current timestamp''
                           [(''timestamp'', Str (Time r')), (''error'', Err e)]
                         \<in> set (emitted ?run)))"
    if mem: "(r', p') \<in> set (sink ?run)"
      and lv: "ParserContext.Level ctx = [] \<or> Level r' = ParserContext.Level ctx"
      and fl: "Filter ctx = [] \<or> strings_Contains (Raw r') (Filter ctx)"
      and pr: "Pretty ctx" and jm: "json_Marshal lib r' = Inr j'" and ji: "json_Indent lib j' = Inr t'"
    for r' p' j' t'
  proof -
    have sh: "printResults lib ctx r' p' = prettyPrintJson lib r' ctx p'"
      by (rule printResults_shown[OF lv fl])
    have up: "ev \<in> set (snd (prettyPrintJson lib r' ctx p')) \<Longrightarrow> ev \<in> set (emitted ?run)" for ev
      using sinkOutput_member[OF mem, of ev lib ctx] sh n1 by simp
    have msg: "Println (''MESSAGE: '' @ Message r') \<in> set (emitted ?run)"
      by (rule up) (rule prettyPrintJson_message[OF jm ji pr])
    have rec: "Println ''DIFF:    0 minutes and 0 seconds'' \<in> set (emitted ?run)
                   \<and> (\<forall>e. parseTime lib p' = Inl e \<longrightarrow>
                         Slog_Error ''Error parsing previous timestamp''
                           [(''timestamp'', Str p'), (''error'', Err e)]
                         \<in> set (emitted ?run))
                   \<and> (\<forall>e. parseTime lib (Time r') = Inl e \<longrightarrow>
                         Slog_Error ''Error parsing current timestamp''
                           [(''timestamp'', Str (Time r')), (''error'', Err e)]
                         \<in> set (emitted ?run))"
      if "p' \<noteq> []" and "isl (parseTime lib p') \<or> isl (parseTime lib (Time r'))"
      using prettyPrintJson_recovery[OF jm ji pr that] up by blast
    show ?thesis using msg rec by blast
  qed
  have n3': "\<forall>r' p' j' t'.
         (r', p') \<in> set (sink ?run)
         \<and> (ParserContext.Level ctx = [] \<or> Level r' = ParserContext.Level ctx)
         \<and> (Filter ctx = [] \<or> strings_Contains (Raw r') (Filter ctx))
         \<and> Pretty ctx \<and> json_Marshal lib r' = Inr j' \<and> json_Indent lib j' = Inr t'
       \<longrightarrow> Println (''MESSAGE: '' @ Message r') \<in> set (emitted ?run)
           \<and> (p' \<noteq> [] \<and> (isl (parseTime lib p') \<or> isl (parseTime lib (Time r')))
               \<longrightarrow> Println ''DIFF:    0 minutes and 0 seconds'' \<in> set (emitted ?run)
                   \<and> (\<forall>e. parseTime lib p' = Inl e \<longrightarrow>
                         Slog_Error ''Error parsing previous timestamp''
                           [(''timestamp'', Str p'), (''error'', Err e)]
                         \<in> set (emitted ?run))
                   \<and> (\<forall>e. parseTime lib (Time r') = Inl e \<longrightarrow>
                         Slog_Error ''Error parsing current timestamp''
                           [(''timestamp'', Str (Time r')), (''error'', Err e)]
                         \<in> set (emitted ?run)))"
    using n3 by blast
  have c1: "fst (printResults ?lib' ctx r p) = fst (printResults lib ctx r p)"
    by (rule printResults_clock)
  have c2: "fst (readStdin ?lib' ctx stdin) = fst (readStdin lib ctx stdin)"
      "core (snd (readStdin ?lib' ctx stdin)) = core (snd (readStdin lib ctx stdin))"
    using readStdin_clock[where lib = lib and tp = tp and ms = ms and ctx = ctx and stdin = stdin]
    by simp_all
  show ?thesis
    by (intro conjI) (rule a, rule c1, rule c2(1), rule c2(2), rule m, rule n1, rule n2, rule n3')
qed

lemma zoneless_fields:
  "ParseStatus zonelessRecord = 1" "Level zonelessRecord = ''INFO''"
  "Raw zonelessRecord = zonelessHeader" "Time zonelessRecord = ''2024-01-01T09:59:58.000''"
  "Message zonelessRecord = ''booting''" "Thread zonelessRecord = ''main''"
  "Class zonelessRecord = ''com.app.Foo''"
  "Thread infoRecord = ''main''" "Class infoRecord = ''com.app.Foo''"
  "Thread errorRecord = ''worker-1''" "Class errorRecord = ''com.app.Bar''"
  by (simp_all add: zonelessRecord_def infoRecord_def errorRecord_def)

lemma find_zonelessHeader:
  "FindStringSubmatch firstLineRegexp 6 zonelessHeader
     = Some [zonelessHeader, ''2024-01-01T09:59:58.000'', ''INFO'', ''123'', ''main'',
             ''com.app.Foo'', ''booting'']"
  by code_simp

lemma classify_zonelessHeader:
  "processLogLine zonelessHeader acc
     = (New zonelessRecord, None, if ParseStatus acc \<noteq> 0 then acc\<lparr>ParseStatus := 3\<rparr> else acc)"
  unfolding processLogLine_def find_zonelessHeader
  by (simp add: zonelessRecord_def strings_Fields_def strings_TrimSpace_def widthOf_def
      unicodeSpaces_def)

lemma zoneless_line:
  "isHeader zonelessHeader" "zonelessHeader \<noteq> []" "CHR 0x0A \<notin> set zonelessHeader"
proof -
  show "isHeader zonelessHeader" by (simp add: isHeader_def find_zonelessHeader)
qed (simp_all add: zonelessHeader_def)

lemma zonedClock_fields:
  "json_Marshal zonedClock r = Inr (Raw r)" "json_Indent zonedClock j = Inr j"
  "minutesAndSeconds zonedClock a b = []"
  by (simp_all add: zonedClock_def)

lemma zonedClock_json:
  "\<forall>r. \<exists>j. json_Marshal zonedClock r = Inr j" "\<forall>j. \<exists>t. json_Indent zonedClock j = Inr t"
  by (simp_all add: zonedClock_fields)

lemma zonedClock_parse:
  "parseTime zonedClock ''2024-01-01T09:59:58.000'' = Inl (Error ''cannot parse'')"
  "parseTime zonedClock ''2024-01-01T10:00:00.000Z'' = Inr 0"
  "parseTime zonedClock ''2024-01-01T10:00:05,250+02:00'' = Inr 0"
  by (simp_all add: parseTime_def zonedClock_def rfc3339_def digit_def oneOf_def)

lemma run_zoneless:
  "\<exists>w. scanLines zonedClock pretty [zonelessHeader, infoHeader, errorHeader] scan0
     = (None, \<lparr>logObjectBuffer = errorRecord, previousLogObject = Some infoRecord,
               sink = [(zonelessRecord, []), (infoRecord, Time zonelessRecord)],
               emitted = w\<rparr>)"
proof -
  have ok: "\<And>a p. fst (printResults zonedClock pretty a p) = None"
    using printResults_ok[OF zonedClock_json] by simp
  have s1: "scanStep zonedClock pretty zonelessHeader scan0
              = (None, scan0\<lparr>logObjectBuffer := zonelessRecord\<rparr>)"
    by (simp add: scanStep_def scan0_def classify_zonelessHeader Let_def sample_fields)
  have s2: "scanStep zonedClock pretty infoHeader (scan0\<lparr>logObjectBuffer := zonelessRecord\<rparr>)
              = (None, \<lparr>logObjectBuffer = infoRecord, previousLogObject = Some zonelessRecord,
                        sink = [(zonelessRecord, [])],
                        emitted = snd (printResults zonedClock pretty zonelessRecord [])\<rparr>)"
    by (simp add: scanStep_def scan0_def classify_infoHeader Let_def split_beta ok
        zoneless_fields previousTimestampOf_def)
  have s3: "scanStep zonedClock pretty errorHeader
              \<lparr>logObjectBuffer = infoRecord, previousLogObject = Some zonelessRecord,
                sink = [(zonelessRecord, [])],
                emitted = snd (printResults zonedClock pretty zonelessRecord [])\<rparr>
              = (None, \<lparr>logObjectBuffer = errorRecord, previousLogObject = Some infoRecord,
                        sink = [(zonelessRecord, []), (infoRecord, Time zonelessRecord)],
                        emitted = snd (printResults zonedClock pretty zonelessRecord [])
                          @ snd (printResults zonedClock pretty infoRecord (Time zonelessRecord))\<rparr>)"
    by (simp add: scanStep_def classify_errorHeader Let_def split_beta ok sample_fields
        previousTimestampOf_def)
  show ?thesis by (simp add: sample_lines zoneless_line s1 s2 s3)
qed

lemma zoneless_output:
  "snd (printResults zonedClock pretty zonelessRecord [])
     = [Color_Green ''LEVEL:   INFO'', Println ''TIME:    2024-01-01T09:59:58.000'',
        Println ''DIFF:    '', Println ''THREAD:  main'', Println ''CLASS:   com.app.Foo'',
        Println ''MESSAGE: booting'', Println []]"
  "snd (printResults zonedClock pretty infoRecord ''2024-01-01T09:59:58.000'')
     = [Color_Green ''LEVEL:   INFO'',
        Slog_Error ''Error parsing previous timestamp''
          [(''timestamp'', Str ''2024-01-01T09:59:58.000''),
           (''error'', Err (Error ''cannot parse''))],
        Println ''TIME:    2024-01-01T10:00:00.000Z'',
        Println ''DIFF:    0 minutes and 0 seconds'',
        Println ''THREAD:  main'', Println ''CLASS:   com.app.Foo'',
        Println ''MESSAGE: started'', Println []]"
  "snd (printResults zonedClock pretty errorRecord ''2024-01-01T10:00:00.000Z'')
     = [Color_Red ''LEVEL:   ERROR'', Println ''TIME:    2024-01-01T10:00:05,250+02:00'',
        Println ''DIFF:    '', Println ''THREAD:  worker-1'', Println ''CLASS:   com.app.Bar'',
        Println ''MESSAGE: request timeout'', Println []]"
  by (simp_all add: printResults_def prettyPrintJson_def Let_def pretty_def zonedClock_fields
      zonedClock_parse sample_fields zoneless_fields)

theorem timestamp_parse_failure_witness:
  "json_Marshal zonedClock infoRecord = Inr infoHeader
   \<and> json_Indent zonedClock infoHeader = Inr infoHeader
   \<and> Pretty pretty \<and> Time zonelessRecord \<noteq> []
   \<and> parseTime zonedClock (Time zonelessRecord) = Inl (Error ''cannot parse'')
   \<and> parseTime zonedClock (Time infoRecord) = Inr 0
   \<and> parseTime zonedClock (Time errorRecord) = Inr 0
   \<and> fst (prettyPrintJson zonedClock infoRecord pretty (Time zonelessRecord)) = None
   \<and> CHR 0x0A \<notin> set zonelessHeader \<and> CHR 0x0A \<notin> set infoHeader \<and> CHR 0x0A \<notin> set errorHeader
   \<and> (\<forall>r. \<exists>j. json_Marshal zonedClock r = Inr j)
   \<and> (\<forall>j. \<exists>t. json_Indent zonedClock j = Inr t)
   \<and> fst (readStdin zonedClock pretty ([zonelessHeader, infoHeader, errorHeader], None)) = None
   \<and> fst (main zonedClock None pretty ([zonelessHeader, infoHeader, errorHeader], None)) = 0
   \<and> map (firstLine \<circ> fst)
        (sink (snd (readStdin zonedClock pretty ([zonelessHeader, infoHeader, errorHeader], None))))
       = [zonelessHeader, infoHeader, errorHeader]
   \<and> sink (snd (readStdin zonedClock pretty ([zonelessHeader, infoHeader, errorHeader], None)))
       = [(zonelessRecord, []), (infoRecord, Time zonelessRecord), (errorRecord, Time infoRecord)]
   \<and> Println ''DIFF:    0 minutes and 0 seconds''
       \<in> set (emitted (snd (readStdin zonedClock pretty
                 ([zonelessHeader, infoHeader, errorHeader], None))))
   \<and> Slog_Error ''Error parsing previous timestamp''
        [(''timestamp'', Str (Time zonelessRecord)), (''error'', Err (Error ''cannot parse''))]
       \<in> set (emitted (snd (readStdin zonedClock pretty
                 ([zonelessHeader, infoHeader, errorHeader], None))))
   \<and> Println (''MESSAGE: '' @ Message errorRecord)
       \<in> set (emitted (snd (readStdin zonedClock pretty
                 ([zonelessHeader, infoHeader, errorHeader], None))))
   \<and> emitted (snd (readStdin zonedClock pretty ([zonelessHeader, infoHeader, errorHeader], None)))
       = [Color_Green ''LEVEL:   INFO'', Println ''TIME:    2024-01-01T09:59:58.000'',
          Println ''DIFF:    '', Println ''THREAD:  main'', Println ''CLASS:   com.app.Foo'',
          Println ''MESSAGE: booting'', Println [],
          Color_Green ''LEVEL:   INFO'',
          Slog_Error ''Error parsing previous timestamp''
            [(''timestamp'', Str ''2024-01-01T09:59:58.000''),
             (''error'', Err (Error ''cannot parse''))],
          Println ''TIME:    2024-01-01T10:00:00.000Z'',
          Println ''DIFF:    0 minutes and 0 seconds'',
          Println ''THREAD:  main'', Println ''CLASS:   com.app.Foo'',
          Println ''MESSAGE: started'', Println [],
          Color_Red ''LEVEL:   ERROR'', Println ''TIME:    2024-01-01T10:00:05,250+02:00'',
          Println ''DIFF:    '', Println ''THREAD:  worker-1'', Println ''CLASS:   com.app.Bar'',
          Println ''MESSAGE: request timeout'', Println []]"
proof -
  let ?lines = "[zonelessHeader, infoHeader, errorHeader]"
  let ?run = "snd (readStdin zonedClock pretty (?lines, None))"
  note t = timestamp_parse_failure[where lib = zonedClock and ctx = pretty and r = infoRecord
      and j = infoHeader and t = infoHeader and p = "Time zonelessRecord"
      and stdin = "(?lines, None)" and lines = ?lines and e = None and setupErr = None
      and tp = "time_Parse zonedClock" and ms = "minutesAndSeconds zonedClock"]
  have h: "json_Marshal zonedClock infoRecord = Inr infoHeader"
      "json_Indent zonedClock infoHeader = Inr infoHeader"
      "Pretty pretty" "Time zonelessRecord \<noteq> []"
      "parseTime zonedClock (Time zonelessRecord) = Inl (Error ''cannot parse'')"
      "parseTime zonedClock (Time infoRecord) = Inr 0"
      "parseTime zonedClock (Time errorRecord) = Inr 0"
    by (simp_all add: zonedClock_fields pretty_def sample_fields zoneless_fields zonedClock_parse)
  have i: "isl (parseTime zonedClock (Time zonelessRecord))
             \<or> isl (parseTime zonedClock (Time infoRecord))"
    by (simp add: h)
  have f: "ParserContext.Level pretty = [] \<or> Level infoRecord = ParserContext.Level pretty"
      "Filter pretty = [] \<or> strings_Contains (Raw infoRecord) (Filter pretty)"
      "ParserContext.Level pretty = [] \<or> Level errorRecord = ParserContext.Level pretty"
      "Filter pretty = [] \<or> strings_Contains (Raw errorRecord) (Filter pretty)"
    by (simp_all add: pretty_def)
  have nl: "\<forall>l\<in>set ?lines. CHR 0x0A \<notin> set l" by (simp add: sample_no_newline zoneless_line)
  have hd: "filter isHeader ?lines = ?lines" by (simp add: sample_lines zoneless_line)
  have a: "fst (prettyPrintJson zonedClock infoRecord pretty (Time zonelessRecord)) = None"
    using t[THEN conjunct1] h i by blast
  note rest = t[THEN conjunct2, THEN conjunct2, THEN conjunct2, THEN conjunct2, THEN conjunct2]
  have n1: "emitted ?run = sinkOutput zonedClock pretty (sink ?run)"
    by (rule rest[THEN conjunct1])
  have n2: "fst (readStdin zonedClock pretty (?lines, None)) = None
      \<and> map (firstLine \<circ> fst) (sink ?run) = filter isHeader ?lines
      \<and> fst (main zonedClock None pretty (?lines, None)) = 0"
    by (rule rest[THEN conjunct2, THEN conjunct1, THEN mp]) (intro conjI nl zonedClock_json)
  obtain w where w: "scanLines zonedClock pretty ?lines scan0
     = (None, \<lparr>logObjectBuffer = errorRecord, previousLogObject = Some infoRecord,
               sink = [(zonelessRecord, []), (infoRecord, Time zonelessRecord)],
               emitted = w\<rparr>)"
    using run_zoneless by blast
  have sk: "sink ?run
       = [(zonelessRecord, []), (infoRecord, Time zonelessRecord), (errorRecord, Time infoRecord)]"
    unfolding readStdin_end[OF w] by (simp add: sample_fields previousTimestampOf_def)
  have m1: "(infoRecord, Time zonelessRecord) \<in> set (sink ?run)"
      "(errorRecord, Time infoRecord) \<in> set (sink ?run)"
    by (simp_all add: sk)
  note n3 = rest[THEN conjunct2, THEN conjunct2, rule_format]
  have r1: "Println ''DIFF:    0 minutes and 0 seconds'' \<in> set (emitted ?run)
      \<and> (\<forall>e. parseTime zonedClock (Time zonelessRecord) = Inl e \<longrightarrow>
            Slog_Error ''Error parsing previous timestamp''
              [(''timestamp'', Str (Time zonelessRecord)), (''error'', Err e)]
            \<in> set (emitted ?run))"
    using n3[of infoRecord "Time zonelessRecord" infoHeader infoHeader, THEN conjunct2]
      m1(1) f(1,2) h i
    by blast
  have r2: "Println (''MESSAGE: '' @ Message errorRecord) \<in> set (emitted ?run)"
    using n3[of errorRecord "Time infoRecord" errorHeader errorHeader, THEN conjunct1]
      m1(2) f(3,4) h(3) zonedClock_fields(1)[of errorRecord] zonedClock_fields(2)[of errorHeader]
    by (simp add: sample_fields)
  have em: "emitted ?run
       = [Color_Green ''LEVEL:   INFO'', Println ''TIME:    2024-01-01T09:59:58.000'',
          Println ''DIFF:    '', Println ''THREAD:  main'', Println ''CLASS:   com.app.Foo'',
          Println ''MESSAGE: booting'', Println [],
          Color_Green ''LEVEL:   INFO'',
          Slog_Error ''Error parsing previous timestamp''
            [(''timestamp'', Str ''2024-01-01T09:59:58.000''),
             (''error'', Err (Error ''cannot parse''))],
          Println ''TIME:    2024-01-01T10:00:00.000Z'',
          Println ''DIFF:    0 minutes and 0 seconds'',
          Println ''THREAD:  main'', Println ''CLASS:   com.app.Foo'',
          Println ''MESSAGE: started'', Println [],
          Color_Red ''LEVEL:   ERROR'', Println ''TIME:    2024-01-01T10:00:05,250+02:00'',
          Println ''DIFF:    '', Println ''THREAD:  worker-1'', Println ''CLASS:   com.app.Bar'',
          Println ''MESSAGE: request timeout'', Println []]"
    unfolding n1 sk
    by (simp add: sinkOutput_def zoneless_output sample_fields zoneless_fields)
  have s: "Slog_Error ''Error parsing previous timestamp''
        [(''timestamp'', Str (Time zonelessRecord)), (''error'', Err (Error ''cannot parse''))]
       \<in> set (emitted ?run)"
    using r1 h(5) by blast
  show ?thesis
    using h a n2 sk r1 s r2 em zonedClock_json sample_no_newline zoneless_line(3)
    unfolding hd
    by (intro conjI) blast+
qed

end
